theory Spec2Isabelle
  imports Main "HOL-Library.Log_Nat"
begin

section \<open>Outcomes of the C++ operations\<close>

text \<open>
  The enum store signals a fatal condition in three ways: a failed \<open>assert\<close> (asserts
  are compiled in), the \<open>IllegalStateException\<close> thrown by \<open>failNewSize\<close> (it carries
  the minimum new size and the maximum size), and behaviour the language leaves undefined
  (a remainder by zero, a floating point value that does not fit the integer it is
  converted to, an unchecked access outside a vector). Each is a value of \<open>failure\<close>;
  a normal return is \<open>Inr\<close>.
\<close>

datatype failure =
    AssertionFailed
  | IllegalStateException nat nat
  | UndefinedBehaviour

section \<open>EnumBufferType and calcArraysToAlloc\<close>

text \<open>
  \<open>size_t\<close> and \<open>uint64_t\<close> are 64 bits wide. Values are natural numbers and the
  wrap-around of every unsigned operation is written out.
\<close>

definition u64 :: "nat \<Rightarrow> nat" where
  "u64 n = n mod 2 ^ 64"

definition add64 :: "nat \<Rightarrow> nat \<Rightarrow> nat" where
  "add64 a b = u64 (a + b)"

definition sub64 :: "nat \<Rightarrow> nat \<Rightarrow> nat" where
  "sub64 a b = u64 (u64 a + (2 ^ 64 - u64 b))"

text \<open>
  \<open>newSize *= growRatio\<close> multiplies a \<open>uint64_t\<close> by the \<open>double\<close> 1.5: the integer
  is converted to \<open>double\<close> (53 significant bits, round to nearest, ties to even), the
  product is rounded the same way, and the result is truncated back to \<open>uint64_t\<close>.
  \<open>round53 n\<close> is the natural number nearest to \<open>n\<close> with at most 53 significant
  bits. The product of the double \<open>d\<close> with 1.5 is \<open>3 * d / 2\<close>; rounding commutes with
  the division by two, and a rounded value of 53 bits or fewer is the exact \<open>3 * d\<close>, whose
  half is truncated by the conversion. A result of \<open>2 ^ 64\<close> or more does not fit
  \<open>uint64_t\<close>: the conversion is undefined, \<open>None\<close>.
\<close>

definition round53 :: "nat \<Rightarrow> nat" where
  "round53 n =
     (if n < 2 ^ 53 then n
      else let e = floorlog 2 n - 53;
               q = n div 2 ^ e;
               r = n mod 2 ^ e;
               h = 2 ^ (e - 1)
           in if h < r \<or> (r = h \<and> odd q) then (q + 1) * 2 ^ e else q * 2 ^ e)"

definition mulGrowRatio :: "nat \<Rightarrow> nat option" where
  "mulGrowRatio n =
     (let r = round53 (3 * round53 n) div 2
      in if r < 2 ^ 64 then Some r else None)"

text \<open>
  Modelled from the spec: \<open>Index::align\<close> and \<open>alignBufferSize\<close> are declared in
  enumstorebase.h, which is not part of the sources at hand. The specification says the
  size is "rounded up to an alignment unit"; the unit is a parameter, and both functions
  are this rounding. The result is a \<open>size_t\<close>.
\<close>

definition Index_align :: "nat \<Rightarrow> nat \<Rightarrow> nat" where
  "Index_align unit val = u64 (((val + unit - 1) div unit) * unit)"

definition alignBufferSize :: "nat \<Rightarrow> nat \<Rightarrow> nat" where
  "alignBufferSize unit val = Index_align unit val"

text \<open>
  The fields of \<open>EnumBufferType\<close> that the constructor initialises and that
  \<open>calcArraysToAlloc\<close> reads. \<open>_lastUsedElems\<close> is a pointer to a counter, null
  (\<open>None\<close>) or pointing at the value given.
\<close>

record EnumBufferType =
  arraySize :: nat
  minArrays :: nat
  maxArrays :: nat
  activeUsedElems :: nat
  lastUsedElems :: "nat option"
  minSizeNeeded :: nat
  deadElems :: nat
  pendingCompact :: bool
  wantCompact :: bool

text \<open>
  The constructor: array size \<open>Index::align(1)\<close>, minimum and maximum number of arrays
  \<open>Index::offsetSize() / Index::align(1)\<close>. \<open>Index::offsetSize()\<close> is a constant of the
  reference type, not part of the sources at hand: a parameter.
\<close>

definition EnumBufferType_ctor :: "nat \<Rightarrow> nat \<Rightarrow> EnumBufferType" where
  "EnumBufferType_ctor unit offsetSize =
     \<lparr> arraySize = Index_align unit 1,
       minArrays = offsetSize div Index_align unit 1,
       maxArrays = offsetSize div Index_align unit 1,
       activeUsedElems = 0,
       lastUsedElems = None,
       minSizeNeeded = 0,
       deadElems = 0,
       pendingCompact = False,
       wantCompact = False \<rparr>"

text \<open>
  \<open>calcArraysToAlloc(bufferId, sizeNeeded, resizing)\<close>. \<open>getReservedElements\<close> is a
  virtual function of the base class \<open>BufferType\<close>, not part of the sources at hand: a
  parameter, from the buffer id to the number of reserved elements. The three sizes the
  function computes are named, so that statements can speak about them.
\<close>

definition usedElemsOf :: "EnumBufferType \<Rightarrow> nat" where
  "usedElemsOf t =
     (case lastUsedElems t of
        None \<Rightarrow> activeUsedElems t
      | Some l \<Rightarrow> add64 (activeUsedElems t) l)"

definition maxSizeOf :: "EnumBufferType \<Rightarrow> nat" where
  "maxSizeOf t = maxArrays t * arraySize t"

definition firstNewSize :: "nat \<Rightarrow> nat \<Rightarrow> EnumBufferType \<Rightarrow> nat \<Rightarrow> nat option" where
  "firstNewSize unit reservedElements t sizeNeeded0 =
     (let sizeNeeded = max sizeNeeded0 (minSizeNeeded t);
          usedElems = usedElemsOf t;
          newSize = add64 (sub64 usedElems (deadElems t)) sizeNeeded
      in case (if usedElems \<noteq> 0 then mulGrowRatio newSize else Some newSize) of
           None \<Rightarrow> None
         | Some grown \<Rightarrow> Some (alignBufferSize unit (add64 grown reservedElements)))"

definition retryNewSize :: "nat \<Rightarrow> nat \<Rightarrow> EnumBufferType \<Rightarrow> nat \<Rightarrow> nat" where
  "retryNewSize unit reservedElements t sizeNeeded0 =
     (let sizeNeeded = max sizeNeeded0 (minSizeNeeded t);
          usedElems = usedElemsOf t
      in alignBufferSize unit
           (add64 (add64 (add64 (sub64 usedElems (deadElems t)) sizeNeeded) reservedElements)
              1000000))"

definition failNewSize :: "nat \<Rightarrow> nat \<Rightarrow> failure + nat" where
  "failNewSize minNewSize maxSize = Inl (IllegalStateException minNewSize maxSize)"

definition calcArraysToAlloc ::
  "nat \<Rightarrow> (nat \<Rightarrow> nat) \<Rightarrow> EnumBufferType \<Rightarrow> nat \<Rightarrow> nat \<Rightarrow> bool \<Rightarrow> failure + nat" where
  "calcArraysToAlloc unit getReservedElements t bufferId sizeNeeded resizing =
     (let reservedElements = getReservedElements bufferId in
      if arraySize t = 0 then Inl UndefinedBehaviour
      else if usedElemsOf t mod arraySize t \<noteq> 0 then Inl AssertionFailed
      else
        case firstNewSize unit reservedElements t sizeNeeded of
          None \<Rightarrow> Inl UndefinedBehaviour
        | Some newSize \<Rightarrow>
            if newSize mod arraySize t \<noteq> 0 then Inl AssertionFailed
            else if newSize \<le> maxSizeOf t then Inr (newSize div arraySize t)
            else
              let newSize2 = retryNewSize unit reservedElements t sizeNeeded in
              if newSize2 mod arraySize t \<noteq> 0 then Inl AssertionFailed
              else if newSize2 \<le> maxSizeOf t then Inr (maxArrays t)
              else failNewSize newSize2 (maxSizeOf t))"

text \<open>
  The growth policy in the words of the specification:
  \<open>max(minSizeNeeded, (liveElements - deadElements + sizeNeeded) * 1.5) + reservedHeadroom\<close>,
  rounded up to the alignment unit. It is stated on unbounded integers, the product by
  1.5 being \<open>3 * x div 2\<close>.
\<close>

definition spec_targetSize :: "nat \<Rightarrow> nat \<Rightarrow> nat \<Rightarrow> nat \<Rightarrow> nat \<Rightarrow> nat \<Rightarrow> nat" where
  "spec_targetSize unit live dead sizeNeeded minNeeded reserved =
     ((max minNeeded (3 * (live - dead + sizeNeeded) div 2) + reserved + unit - 1) div unit) * unit"

text \<open>
  The size the code aims at, on unbounded integers: the request is raised to
  \<open>minSizeNeeded\<close> first, the growth by one half applies to the whole sum and only when
  elements are in use.
\<close>

definition code_targetSize :: "nat \<Rightarrow> nat \<Rightarrow> nat \<Rightarrow> nat \<Rightarrow> nat \<Rightarrow> nat \<Rightarrow> nat" where
  "code_targetSize unit used dead sizeNeeded minNeeded reserved =
     (let x = used + max sizeNeeded minNeeded - dead;
          grown = (if used = 0 then x else 3 * x div 2)
      in ((grown + reserved + unit - 1) div unit) * unit)"


text \<open>Concrete buffer types used to exercise the statements below.\<close>

definition exampleType :: EnumBufferType where
  "exampleType =
     \<lparr> arraySize = 4, minArrays = 1000, maxArrays = 1000, activeUsedElems = 0,
       lastUsedElems = None, minSizeNeeded = 0, deadElems = 0,
       pendingCompact = False, wantCompact = False \<rparr>"

definition exampleType2 :: EnumBufferType where
  "exampleType2 = exampleType\<lparr>activeUsedElems := 4, minSizeNeeded := 40\<rparr>"

definition exampleType3 :: EnumBufferType where
  "exampleType3 = exampleType\<lparr>activeUsedElems := 4, maxArrays := 1100000\<rparr>"

section \<open>Hold lists\<close>

text \<open>
  Modelled from the spec: the hold lists of the data store and of the dictionary
  (\<open>DataStoreBase::trimHoldLists\<close>, \<open>trim_hold_lists\<close>) are not part of the sources at
  hand. The specification describes a hold list entry as a pair of a resource handle and
  the generation at which it was retired, and trimming as a scan that physically frees
  every entry whose generation is less than \<open>firstUsed\<close>. The scan returns the resources
  it frees and the entries it keeps.
\<close>

type_synonym 'r HoldList = "('r \<times> nat) list"

fun trimHoldList :: "nat \<Rightarrow> 'r HoldList \<Rightarrow> 'r list \<times> 'r HoldList" where
  "trimHoldList firstUsed [] = ([], [])"
| "trimHoldList firstUsed ((r, g) # es) =
     (let (freed, kept) = trimHoldList firstUsed es
      in if g < firstUsed then (r # freed, kept) else (freed, (r, g) # kept))"

section \<open>The data store, the dictionary and EnumStoreBase\<close>

text \<open>
  Modelled from the spec: \<open>BufferState\<close> and the data store are declared in headers that
  are not part of the sources at hand. A buffer has a state, a used element count
  (\<open>size()\<close>) and a dead element count (\<open>getDeadElems()\<close>); the store owns the buffers,
  knows the active buffer of the enum type (\<open>getActiveBufferId(TYPE_ID)\<close>) and keeps a
  hold list and the resources freed so far.
\<close>

datatype State = FREE | ACTIVE | HOLD

record BufferState =
  bs_state :: State
  bs_usedElems :: nat
  bs_deadElems :: nat

record 'r DataStore =
  buffers :: "BufferState list"
  activeBufferId :: nat
  storeHoldList :: "'r HoldList"
  storeFreed :: "'r list"

record 'n EnumDict =
  dictHoldList :: "'n HoldList"
  dictFreed :: "'n list"

definition DataStore_trimHoldLists :: "nat \<Rightarrow> 'r DataStore \<Rightarrow> 'r DataStore" where
  "DataStore_trimHoldLists firstUsed st =
     (let (freed, kept) = trimHoldList firstUsed (storeHoldList st)
      in st\<lparr>storeHoldList := kept, storeFreed := storeFreed st @ freed\<rparr>)"

definition trim_hold_lists :: "nat \<Rightarrow> 'n EnumDict \<Rightarrow> 'n EnumDict" where
  "trim_hold_lists firstUsed d =
     (let (freed, kept) = trimHoldList firstUsed (dictHoldList d)
      in d\<lparr>dictHoldList := kept, dictFreed := dictFreed d @ freed\<rparr>)"

text \<open>The members of \<open>EnumStoreBase\<close>: \<open>_enumDict\<close>, \<open>_store\<close>, \<open>_type\<close>, \<open>_toHoldBuffers\<close>.\<close>

record ('n, 'r) EnumStoreBase =
  enumDict :: "'n EnumDict"
  store :: "'r DataStore"
  enumType :: EnumBufferType
  toHoldBuffers :: "nat list"

text \<open>
  \<open>trimHoldLists(firstUsed)\<close>: "remove generations in the range [0, firstUsed>", first
  in the dictionary, then in the store.
\<close>

definition trimHoldLists :: "nat \<Rightarrow> ('n, 'r) EnumStoreBase \<Rightarrow> ('n, 'r) EnumStoreBase" where
  "trimHoldLists firstUsed s =
     (let s1 = s\<lparr>enumDict := trim_hold_lists firstUsed (enumDict s)\<rparr>
      in s1\<lparr>store := DataStore_trimHoldLists firstUsed (store s1)\<rparr>)"

text \<open>
  Modelled from the spec: \<open>setSizeNeededAndDead\<close> is defined in enumstorebase.h, not
  part of the sources at hand; it records the size needed and the dead element count that
  \<open>calcArraysToAlloc\<close> reads as \<open>_minSizeNeeded\<close> and \<open>_deadElems\<close>.
\<close>

definition setSizeNeededAndDead :: "nat \<Rightarrow> nat \<Rightarrow> EnumBufferType \<Rightarrow> EnumBufferType" where
  "setSizeNeededAndDead sizeNeeded dead t = t\<lparr>minSizeNeeded := sizeNeeded, deadElems := dead\<rparr>"

text \<open>
  \<open>getBufferIndex(status)\<close>: the index of the first buffer in the given state, or
  \<open>Index::numBuffers()\<close> (a constant of the reference type, a parameter here) when the
  loop over the store's buffers finds none.
\<close>

fun findState :: "State \<Rightarrow> nat \<Rightarrow> BufferState list \<Rightarrow> nat option" where
  "findState status i [] = None"
| "findState status i (b # bs) =
     (if bs_state b = status then Some i else findState status (Suc i) bs)"

definition getBufferIndex :: "nat \<Rightarrow> ('n, 'r) EnumStoreBase \<Rightarrow> State \<Rightarrow> nat" where
  "getBufferIndex numBuffers s status =
     (case findState status 0 (buffers (store s)) of
        Some i \<Rightarrow> i
      | None \<Rightarrow> numBuffers)"

text \<open>
  \<open>getAddressSpaceUsage()\<close>. \<open>getBufferState\<close> indexes the vector of buffer states
  unchecked; \<open>RefType::offsetSize()\<close> is a parameter.
\<close>

record AddressSpace =
  as_used :: nat
  as_dead :: nat
  as_limit :: nat

definition getBufferState :: "'r DataStore \<Rightarrow> nat \<Rightarrow> failure + BufferState" where
  "getBufferState st i =
     (if i < length (buffers st) then Inr (buffers st ! i) else Inl UndefinedBehaviour)"

definition getAddressSpaceUsage :: "nat \<Rightarrow> ('n, 'r) EnumStoreBase \<Rightarrow> failure + AddressSpace" where
  "getAddressSpaceUsage offsetSize s =
     (case getBufferState (store s) (activeBufferId (store s)) of
        Inl e \<Rightarrow> Inl e
      | Inr activeState \<Rightarrow>
          Inr \<lparr> as_used = bs_usedElems activeState,
                as_dead = bs_deadElems activeState,
                as_limit = offsetSize \<rparr>)"

text \<open>
  \<open>preCompact(bytesNeeded)\<close>. \<open>startCompact\<close> belongs to the data store and is not part
  of the sources at hand: a parameter. The store holds a pointer to \<open>_type\<close>
  (\<open>addType(&_type)\<close> in the constructor): a function of the store reads the buffer
  type and may update its bookkeeping, so it takes the type and returns it with the store.
  The compaction started after \<open>setSizeNeededAndDead\<close> sees the updated type; it returns
  the buffers to hold.
\<close>

definition preCompact ::
  "nat \<Rightarrow> (EnumBufferType \<Rightarrow> 'r DataStore \<Rightarrow> nat list \<times> EnumBufferType \<times> 'r DataStore) \<Rightarrow>
   ('n, 'r) EnumStoreBase \<Rightarrow> nat \<Rightarrow> failure + (bool \<times> ('n, 'r) EnumStoreBase)" where
  "preCompact numBuffers startCompact s bytesNeeded =
     (if getBufferIndex numBuffers s FREE = numBuffers then Inr (False, s)
      else
        case getBufferState (store s) (activeBufferId (store s)) of
          Inl e \<Rightarrow> Inl e
        | Inr activeBuf \<Rightarrow>
            let t = setSizeNeededAndDead bytesNeeded (bs_deadElems activeBuf) (enumType s);
                (toHold, t', st) = startCompact t (store s)
            in Inr (True, s\<lparr>store := st, enumType := t', toHoldBuffers := toHold\<rparr>))"

text \<open>
  \<open>reset(initBufferSize)\<close>. The four functions it calls on the store and on the
  dictionary are not part of the sources at hand: parameters, gathered in a record. Those
  of the store take and return the buffer type, as \<open>startCompact\<close> does.
\<close>

record ('n, 'r) Collaborators =
  clearHoldLists :: "EnumBufferType \<Rightarrow> 'r DataStore \<Rightarrow> EnumBufferType \<times> 'r DataStore"
  dropBuffers :: "EnumBufferType \<Rightarrow> 'r DataStore \<Rightarrow> EnumBufferType \<times> 'r DataStore"
  initActiveBuffers :: "EnumBufferType \<Rightarrow> 'r DataStore \<Rightarrow> EnumBufferType \<times> 'r DataStore"
  onReset :: "'n EnumDict \<Rightarrow> 'n EnumDict"

definition reset ::
  "('n, 'r) Collaborators \<Rightarrow> nat \<Rightarrow> ('n, 'r) EnumStoreBase \<Rightarrow> ('n, 'r) EnumStoreBase" where
  "reset c initBufferSize s =
     (let (t1, st1) = clearHoldLists c (enumType s) (store s);
          (t2, st2) = dropBuffers c t1 st1;
          t3 = setSizeNeededAndDead initBufferSize 0 t2;
          (t4, st4) = initActiveBuffers c t3 st2
      in s\<lparr>store := st4, enumType := t4, enumDict := onReset c (enumDict s)\<rparr>)"


section \<open>Bulk load: deserialize0 and deserialize\<close>

text \<open>
  The serialized input \<open>(src, available)\<close> is a list of bytes; the cursor \<open>(p, left)\<close>
  is the list of the bytes not yet consumed. The two per-record overloads of
  \<open>deserialize\<close> are virtual functions of the typed enum store, not part of the sources
  at hand: parameters. \<open>sizeRecord\<close> is the overload that takes \<open>initSpace\<close> by
  reference, \<open>parseRecord\<close> the one that stores a value and yields its index; both
  return the number of bytes consumed, negative for an error.

  A loop ends in one of three ways: the \<open>return sz\<close> on a negative size, the cursor
  leaving the buffer (a size larger than what is left makes \<open>left\<close> wrap around and the
  next read is outside the input), or the exit of the loop. A size of zero makes the loop
  run forever: the loops are partial functions and \<open>None\<close> is the run that never returns.
\<close>

datatype 'a scan = Returned int | Overrun | Completed 'a

type_synonym Index = nat

partial_function (option) sizePass ::
  "(char list \<Rightarrow> nat \<Rightarrow> int \<times> nat) \<Rightarrow> char list \<Rightarrow> nat \<Rightarrow> nat scan option" where
  "sizePass sizeRecord p initSpace =
     (if p = [] then Some (Completed initSpace)
      else
        let (sz, initSpace') = sizeRecord p initSpace in
        if sz < 0 then Some (Returned sz)
        else if int (length p) < sz then Some Overrun
        else sizePass sizeRecord (drop (nat sz) p) initSpace')"

partial_function (option) parsePass ::
  "(char list \<Rightarrow> 's \<Rightarrow> int \<times> Index \<times> 's) \<Rightarrow> char list \<Rightarrow> Index list \<Rightarrow> 's \<Rightarrow>
   (unit scan \<times> Index list \<times> 's) option" where
  "parsePass parseRecord p idx s =
     (if p = [] then Some (Completed (), idx, s)
      else
        let (sz, idx1, s') = parseRecord p s in
        if sz < 0 then Some (Returned sz, idx, s')
        else if int (length p) < sz then Some (Overrun, idx, s')
        else parsePass parseRecord (drop (nat sz) p) (idx @ [idx1]) s')"

text \<open>
  \<open>deserialize0(src, available, idx)\<close>: the first loop starts from
  \<open>initSpace = Index::align(1)\<close>, then \<open>reset(initSpace)\<close>, then the second loop from
  the start of the input again. The index vector is passed by reference: what was pushed
  before an error return stays in it.
\<close>

definition deserialize0 ::
  "('n, 'r) Collaborators \<Rightarrow> nat \<Rightarrow> (char list \<Rightarrow> nat \<Rightarrow> int \<times> nat) \<Rightarrow>
   (char list \<Rightarrow> ('n, 'r) EnumStoreBase \<Rightarrow> int \<times> Index \<times> ('n, 'r) EnumStoreBase) \<Rightarrow>
   char list \<Rightarrow> Index list \<Rightarrow> ('n, 'r) EnumStoreBase \<Rightarrow>
   (failure + int \<times> Index list \<times> ('n, 'r) EnumStoreBase) option" where
  "deserialize0 c unit sizeRecord parseRecord src idx s =
     (case sizePass sizeRecord src (Index_align unit 1) of
        None \<Rightarrow> None
      | Some (Returned sz) \<Rightarrow> Some (Inr (sz, idx, s))
      | Some Overrun \<Rightarrow> Some (Inl UndefinedBehaviour)
      | Some (Completed initSpace) \<Rightarrow>
          (case parsePass parseRecord src idx (reset c initSpace s) of
             None \<Rightarrow> None
           | Some (Returned sz, idx', s') \<Rightarrow> Some (Inr (sz, idx', s'))
           | Some (Overrun, idx', s') \<Rightarrow> Some (Inl UndefinedBehaviour)
           | Some (Completed u, idx', s') \<Rightarrow> Some (Inr (int (length src), idx', s'))))"

text \<open>
  Modelled from the spec: the B-tree and its builder are not part of the sources at hand.
  The specification treats the dictionary as an ordered associative container with
  in-order iteration; a tree is the sequence of its keys with their data, in iteration
  order. The builder appends, \<open>assign\<close> replaces the content of the tree by what was
  built.
\<close>

type_synonym 'd Tree = "(Index \<times> 'd) list"

definition Builder_insert :: "'d Tree \<Rightarrow> Index \<Rightarrow> 'd \<Rightarrow> 'd Tree" where
  "Builder_insert builder key val = builder @ [(key, val)]"

definition Tree_assign :: "'d Tree \<Rightarrow> 'd Tree \<Rightarrow> 'd Tree" where
  "Tree_assign tree builder = builder"

text \<open>
  \<open>deserialize(src, available, idx, tree)\<close>: the tree is built from the whole index
  vector, with default data \<open>Tree::DataType()\<close>, only when \<open>deserialize0\<close> returned a
  size that is not negative.
\<close>

definition deserialize ::
  "('n, 'r) Collaborators \<Rightarrow> nat \<Rightarrow> (char list \<Rightarrow> nat \<Rightarrow> int \<times> nat) \<Rightarrow>
   (char list \<Rightarrow> ('n, 'r) EnumStoreBase \<Rightarrow> int \<times> Index \<times> ('n, 'r) EnumStoreBase) \<Rightarrow> 'd \<Rightarrow>
   char list \<Rightarrow> Index list \<Rightarrow> 'd Tree \<Rightarrow> ('n, 'r) EnumStoreBase \<Rightarrow>
   (failure + int \<times> Index list \<times> 'd Tree \<times> ('n, 'r) EnumStoreBase) option" where
  "deserialize c unit sizeRecord parseRecord dataDefault src idx tree s =
     (case deserialize0 c unit sizeRecord parseRecord src idx s of
        None \<Rightarrow> None
      | Some (Inl e) \<Rightarrow> Some (Inl e)
      | Some (Inr (sz, idx', s')) \<Rightarrow>
          Some (Inr (sz, idx',
            (if 0 \<le> sz
             then Tree_assign tree (foldl (\<lambda>builder i. Builder_insert builder i dataDefault) [] idx')
             else tree),
            s')))"

section \<open>fixupRefCounts\<close>

text \<open>
  \<open>fixupRefCounts(hist, tree)\<close>. The iterator \<open>ti\<close> is the part of the tree not yet
  visited, valid when it is not empty. \<open>fixupRefCount\<close> and \<open>freeUnusedEnums\<close> are
  virtual functions of the typed enum store, not part of the sources at hand: parameters
  acting on the state of the store.
\<close>

fun fixupLoop ::
  "(Index \<Rightarrow> nat \<Rightarrow> 's \<Rightarrow> 's) \<Rightarrow> nat list \<Rightarrow> 'd Tree \<Rightarrow> 's \<Rightarrow> failure + 'd Tree \<times> 's" where
  "fixupLoop fixupRefCount [] ti s = Inr (ti, s)"
| "fixupLoop fixupRefCount (h # hist) ti s =
     (case ti of
        [] \<Rightarrow> Inl AssertionFailed
      | (key, val) # ti' \<Rightarrow> fixupLoop fixupRefCount hist ti' (fixupRefCount key h s))"

definition fixupRefCounts ::
  "(Index \<Rightarrow> nat \<Rightarrow> 's \<Rightarrow> 's) \<Rightarrow> (bool \<Rightarrow> 's \<Rightarrow> 's) \<Rightarrow> nat list \<Rightarrow> 'd Tree \<Rightarrow> 's \<Rightarrow> failure + 's" where
  "fixupRefCounts fixupRefCount freeUnusedEnums hist tree s =
     (if hist = [] then Inr s
      else
        case fixupLoop fixupRefCount hist tree s of
          Inl e \<Rightarrow> Inl e
        | Inr (ti, s') \<Rightarrow>
            if ti \<noteq> [] then Inl AssertionFailed
            else Inr (freeUnusedEnums False s'))"

section \<open>The unique store\<close>

text \<open>
  Modelled from the spec: only the declaration of the class \<open>UniqueStore\<close> is among the
  sources at hand; \<open>add\<close>, \<open>find\<close> and \<open>remove\<close> follow the component design of the
  specification. An entry is a value with a reference count. The dictionary maps a value
  to its reference and is searched with the comparator's equality \<open>eqv\<close>. The arena hands
  out fresh references up to a capacity and never reuses one before a compaction. An
  entry whose count reaches zero leaves the dictionary; its slot is put on hold and stays
  readable.
\<close>

record 'v UniqueStoreEntry =
  entryValue :: 'v
  refCount :: nat

record UniqueStoreAddResult =
  ref :: nat
  isNew :: bool

record 'v UniqueStore =
  dict :: "('v \<times> nat) list"
  entries :: "nat \<rightharpoonup> 'v UniqueStoreEntry"
  nextRef :: nat
  capacity :: nat
  heldRefs :: "nat list"

fun lookup :: "('v \<Rightarrow> 'v \<Rightarrow> bool) \<Rightarrow> 'v \<Rightarrow> ('v \<times> nat) list \<Rightarrow> nat option" where
  "lookup eqv v [] = None"
| "lookup eqv v ((w, r) # d) = (if eqv v w then Some r else lookup eqv v d)"

definition UniqueStore_find :: "('v \<Rightarrow> 'v \<Rightarrow> bool) \<Rightarrow> 'v \<Rightarrow> 'v UniqueStore \<Rightarrow> nat option" where
  "UniqueStore_find eqv v s = lookup eqv v (dict s)"

definition UniqueStore_add ::
  "('v \<Rightarrow> 'v \<Rightarrow> bool) \<Rightarrow> 'v \<Rightarrow> 'v UniqueStore \<Rightarrow> failure + UniqueStoreAddResult \<times> 'v UniqueStore" where
  "UniqueStore_add eqv v s =
     (case lookup eqv v (dict s) of
        Some r \<Rightarrow>
          (case entries s r of
             None \<Rightarrow> Inl AssertionFailed
           | Some e \<Rightarrow>
               Inr (\<lparr>ref = r, isNew = False\<rparr>,
                    s\<lparr>entries := (entries s)(r \<mapsto> e\<lparr>refCount := refCount e + 1\<rparr>)\<rparr>))
      | None \<Rightarrow>
          if capacity s \<le> nextRef s
          then Inl (IllegalStateException (nextRef s + 1) (capacity s))
          else
            Inr (\<lparr>ref = nextRef s, isNew = True\<rparr>,
                 s\<lparr>dict := (v, nextRef s) # dict s,
                   entries := (entries s)(nextRef s \<mapsto> \<lparr>entryValue = v, refCount = 1\<rparr>),
                   nextRef := nextRef s + 1\<rparr>))"

definition UniqueStore_remove :: "nat \<Rightarrow> 'v UniqueStore \<Rightarrow> failure + 'v UniqueStore" where
  "UniqueStore_remove r s =
     (case entries s r of
        None \<Rightarrow> Inl AssertionFailed
      | Some e \<Rightarrow>
          if refCount e = 0 then Inl AssertionFailed
          else if refCount e = 1 then
            Inr (s\<lparr>dict := filter (\<lambda>(w, r'). r' \<noteq> r) (dict s),
                   entries := (entries s)(r \<mapsto> e\<lparr>refCount := 0\<rparr>),
                   heldRefs := r # heldRefs s\<rparr>)
          else Inr (s\<lparr>entries := (entries s)(r \<mapsto> e\<lparr>refCount := refCount e - 1\<rparr>)\<rparr>))"

definition emptyStore :: "nat \<Rightarrow> 'v UniqueStore" where
  "emptyStore cap = \<lparr>dict = [], entries = Map.empty, nextRef = 0, capacity = cap, heldRefs = []\<rparr>"

text \<open>
  The reference count of a value is the count of the entry the dictionary finds for it,
  zero when it finds none.
\<close>

definition refCountOf :: "('v \<Rightarrow> 'v \<Rightarrow> bool) \<Rightarrow> 'v UniqueStore \<Rightarrow> 'v \<Rightarrow> nat" where
  "refCountOf eqv s v =
     (case lookup eqv v (dict s) of
        None \<Rightarrow> 0
      | Some r \<Rightarrow> (case entries s r of None \<Rightarrow> 0 | Some e \<Rightarrow> refCount e))"

text \<open>
  A client of the store: a sequence of adds and removes of values. A remove looks the
  reference of the value up with \<open>find\<close> and hands it to \<open>remove\<close>; removing a value
  that is not stored is a misuse, asserted.
\<close>

datatype 'v storeOp = OpAdd 'v | OpRemove 'v

fun runOps :: "('v \<Rightarrow> 'v \<Rightarrow> bool) \<Rightarrow> 'v storeOp list \<Rightarrow> 'v UniqueStore \<Rightarrow> failure + 'v UniqueStore" where
  "runOps eqv [] s = Inr s"
| "runOps eqv (OpAdd v # ops) s =
     (case UniqueStore_add eqv v s of
        Inl e \<Rightarrow> Inl e
      | Inr (res, s') \<Rightarrow> runOps eqv ops s')"
| "runOps eqv (OpRemove v # ops) s =
     (case UniqueStore_find eqv v s of
        None \<Rightarrow> Inl AssertionFailed
      | Some r \<Rightarrow>
          (case UniqueStore_remove r s of
             Inl e \<Rightarrow> Inl e
           | Inr s' \<Rightarrow> runOps eqv ops s'))"

fun numAdds :: "('v \<Rightarrow> 'v \<Rightarrow> bool) \<Rightarrow> 'v \<Rightarrow> 'v storeOp list \<Rightarrow> nat" where
  "numAdds eqv v [] = 0"
| "numAdds eqv v (OpAdd w # ops) = (if eqv v w then 1 else 0) + numAdds eqv v ops"
| "numAdds eqv v (OpRemove w # ops) = numAdds eqv v ops"

fun numRemoves :: "('v \<Rightarrow> 'v \<Rightarrow> bool) \<Rightarrow> 'v \<Rightarrow> 'v storeOp list \<Rightarrow> nat" where
  "numRemoves eqv v [] = 0"
| "numRemoves eqv v (OpAdd w # ops) = numRemoves eqv v ops"
| "numRemoves eqv v (OpRemove w # ops) = (if eqv v w then 1 else 0) + numRemoves eqv v ops"

section \<open>Concrete stores\<close>

text \<open>
  An enum store with three buffers (the first active, the second free, the third on
  hold), three dictionary nodes and three store resources on the hold lists; a data store
  whose compaction holds the active buffer and activates buffer 1; and a store without a
  free buffer.
\<close>

definition exampleEnumStore :: "(nat, nat) EnumStoreBase" where
  "exampleEnumStore =
     \<lparr> enumDict = \<lparr> dictHoldList = [(10, 3), (11, 5), (12, 7)], dictFreed = [] \<rparr>,
       store =
         \<lparr> buffers =
             [\<lparr> bs_state = ACTIVE, bs_usedElems = 100, bs_deadElems = 20 \<rparr>,
              \<lparr> bs_state = FREE, bs_usedElems = 0, bs_deadElems = 0 \<rparr>,
              \<lparr> bs_state = HOLD, bs_usedElems = 50, bs_deadElems = 50 \<rparr>],
           activeBufferId = 0,
           storeHoldList = [(20, 4), (21, 5), (22, 9)],
           storeFreed = [] \<rparr>,
       enumType = exampleType,
       toHoldBuffers = [] \<rparr>"

definition exampleStartCompact ::
  "EnumBufferType \<Rightarrow> nat DataStore \<Rightarrow> nat list \<times> EnumBufferType \<times> nat DataStore" where
  "exampleStartCompact t st =
     ([activeBufferId st], t\<lparr>activeUsedElems := 0\<rparr>, st\<lparr>activeBufferId := 1\<rparr>)"

definition exampleFullStore :: "(nat, nat) EnumStoreBase" where
  "exampleFullStore =
     exampleEnumStore
       \<lparr> store := (store exampleEnumStore)
           \<lparr> buffers :=
               [\<lparr> bs_state = ACTIVE, bs_usedElems = 100, bs_deadElems = 20 \<rparr>,
                \<lparr> bs_state = HOLD, bs_usedElems = 50, bs_deadElems = 50 \<rparr>] \<rparr> \<rparr>"

section \<open>Serialized records\<close>

text \<open>
  To speak about the records of a serialized input: the input is the concatenation of the
  records \<open>recs\<close> followed by \<open>rest\<close>. A per-record function is framed by \<open>recs\<close>
  when, positioned at the start of each record in turn, it consumes exactly that record.
  \<open>sizeTotal\<close> is the buffer size accumulated over the records, \<open>parsedIndices\<close> and
  \<open>parsedStore\<close> are the indices yielded and the store left by parsing them in order.
\<close>

fun sizeFramed ::
  "(char list \<Rightarrow> nat \<Rightarrow> int \<times> nat) \<Rightarrow> char list list \<Rightarrow> char list \<Rightarrow> nat \<Rightarrow> bool" where
  "sizeFramed sizeRecord [] rest initSpace = True"
| "sizeFramed sizeRecord (r # rs) rest initSpace =
     (r \<noteq> [] \<and> fst (sizeRecord (r @ concat rs @ rest) initSpace) = int (length r) \<and>
      sizeFramed sizeRecord rs rest (snd (sizeRecord (r @ concat rs @ rest) initSpace)))"

fun sizeTotal ::
  "(char list \<Rightarrow> nat \<Rightarrow> int \<times> nat) \<Rightarrow> char list list \<Rightarrow> char list \<Rightarrow> nat \<Rightarrow> nat" where
  "sizeTotal sizeRecord [] rest initSpace = initSpace"
| "sizeTotal sizeRecord (r # rs) rest initSpace =
     sizeTotal sizeRecord rs rest (snd (sizeRecord (r @ concat rs @ rest) initSpace))"

fun parseFramed ::
  "(char list \<Rightarrow> 's \<Rightarrow> int \<times> Index \<times> 's) \<Rightarrow> char list list \<Rightarrow> char list \<Rightarrow> 's \<Rightarrow> bool" where
  "parseFramed parseRecord [] rest s = True"
| "parseFramed parseRecord (r # rs) rest s =
     (r \<noteq> [] \<and> fst (parseRecord (r @ concat rs @ rest) s) = int (length r) \<and>
      parseFramed parseRecord rs rest (snd (snd (parseRecord (r @ concat rs @ rest) s))))"

fun parsedIndices ::
  "(char list \<Rightarrow> 's \<Rightarrow> int \<times> Index \<times> 's) \<Rightarrow> char list list \<Rightarrow> char list \<Rightarrow> 's \<Rightarrow> Index list" where
  "parsedIndices parseRecord [] rest s = []"
| "parsedIndices parseRecord (r # rs) rest s =
     fst (snd (parseRecord (r @ concat rs @ rest) s)) #
     parsedIndices parseRecord rs rest (snd (snd (parseRecord (r @ concat rs @ rest) s)))"

fun parsedStore ::
  "(char list \<Rightarrow> 's \<Rightarrow> int \<times> Index \<times> 's) \<Rightarrow> char list list \<Rightarrow> char list \<Rightarrow> 's \<Rightarrow> 's" where
  "parsedStore parseRecord [] rest s = s"
| "parsedStore parseRecord (r # rs) rest s =
     parsedStore parseRecord rs rest (snd (snd (parseRecord (r @ concat rs @ rest) s)))"

text \<open>
  A concrete format for exercising the statements: a record is two bytes, its index the
  code of the first byte; a first byte \<open>x\<close> or a lone last byte is an error. Each record
  needs eight elements of buffer space. The collaborators of \<open>reset\<close>: clearing the
  hold lists empties the hold list of the store, dropping the buffers leaves every buffer
  free and empty, setting up the active buffers makes buffer 0 the active one and starts
  the type's count of used elements at zero, and the dictionary forgets its held nodes.
\<close>

definition exampleSizeRecord :: "char list \<Rightarrow> nat \<Rightarrow> int \<times> nat" where
  "exampleSizeRecord p initSpace = (if length p < 2 then (- 1, initSpace) else (2, initSpace + 8))"

definition exampleParseRecord :: "char list \<Rightarrow> 's \<Rightarrow> int \<times> Index \<times> 's" where
  "exampleParseRecord p s =
     (if length p < 2 \<or> hd p = CHR ''x'' then (- 1, 0, s) else (2, of_char (hd p), s))"

definition exampleCollaborators :: "(nat, nat) Collaborators" where
  "exampleCollaborators =
     \<lparr> clearHoldLists = (\<lambda>t st. (t, st\<lparr>storeHoldList := []\<rparr>)),
       dropBuffers =
         (\<lambda>t st. (t, st\<lparr>buffers :=
            map (\<lambda>b. \<lparr> bs_state = FREE, bs_usedElems = 0, bs_deadElems = 0 \<rparr>) (buffers st)\<rparr>)),
       initActiveBuffers =
         (\<lambda>t st. (t\<lparr>activeUsedElems := 0\<rparr>,
            st\<lparr>buffers :=
                 (buffers st)[0 := \<lparr> bs_state = ACTIVE, bs_usedElems = 0, bs_deadElems = 0 \<rparr>],
               activeBufferId := 0\<rparr>)),
       onReset = (\<lambda>d. d\<lparr>dictHoldList := []\<rparr>) \<rparr>"

section \<open>Consistency of the unique store\<close>

text \<open>
  What \<open>add\<close> and \<open>remove\<close> maintain: no two dictionary entries hold equal values,
  no two hold the same reference, and every reference in the dictionary was handed out by
  the arena.
\<close>

fun uniqueValues :: "('v \<Rightarrow> 'v \<Rightarrow> bool) \<Rightarrow> ('v \<times> nat) list \<Rightarrow> bool" where
  "uniqueValues eqv [] = True"
| "uniqueValues eqv ((w, r) # d) = (lookup eqv w d = None \<and> uniqueValues eqv d)"

definition storeInv :: "('v \<Rightarrow> 'v \<Rightarrow> bool) \<Rightarrow> 'v UniqueStore \<Rightarrow> bool" where
  "storeInv eqv s =
     (distinct (map snd (dict s)) \<and> list_all (\<lambda>(w, r). r < nextRef s) (dict s) \<and>
      uniqueValues eqv (dict s))"

text \<open>Strings compared without regard to case, as a comparator of the store.\<close>

definition lowerChar :: "char \<Rightarrow> char" where
  "lowerChar ch =
     (case map_of (zip ''ABCDEFGHIJKLMNOPQRSTUVWXYZ'' ''abcdefghijklmnopqrstuvwxyz'') ch of
        None \<Rightarrow> ch
      | Some l \<Rightarrow> l)"

definition sameFolded :: "string \<Rightarrow> string \<Rightarrow> bool" where
  "sameFolded a b = (map lowerChar a = map lowerChar b)"

section \<open>Arithmetic of the 64-bit operations in range\<close>

lemma wrap_sub_add:
  fixes M :: nat
  assumes "d \<le> u + s" "u + s < M"
  shows "((u mod M + (M - d mod M)) mod M + s) mod M = u + s - d"
proof -
  have u: "u < M" and d: "d < M"
    using assms by simp_all
  have "((u mod M + (M - d mod M)) mod M + s) mod M = (u + (M - d) + s) mod M"
    using u d by (simp add: mod_add_left_eq)
  also have "u + (M - d) + s = (u + s - d) + M"
    using assms d by simp
  also have "((u + s - d) + M) mod M = (u + s - d) mod M"
    by simp
  also have "\<dots> = u + s - d"
    using assms by simp
  finally show ?thesis .
qed

lemma add64_sub64:
  assumes "d \<le> u + s" "u + s < 2 ^ 64"
  shows "add64 (sub64 u d) s = u + s - d"
  unfolding add64_def sub64_def u64_def using assms by (rule wrap_sub_add)

lemma add64_small: "a + b < 2 ^ 64 \<Longrightarrow> add64 a b = a + b"
  by (simp add: add64_def u64_def)

lemma sub64_zero: "u < 2 ^ 64 \<Longrightarrow> sub64 u 0 = u"
  by (simp add: sub64_def u64_def)

lemma round53_small: "n < 2 ^ 53 \<Longrightarrow> round53 n = n"
  by (simp add: round53_def)

lemma mulGrowRatio_small:
  assumes "n < 2 ^ 51"
  shows "mulGrowRatio n = Some (3 * n div 2)"
proof -
  have a: "round53 n = n"
    using assms by (simp add: round53_small)
  have b: "3 * n < 2 ^ 53"
    using assms by simp
  have c: "3 * n div 2 < 2 ^ 64"
    using assms by simp
  show ?thesis
    unfolding mulGrowRatio_def Let_def a round53_small [OF b] using c by simp
qed

lemma roundup_le: "0 < (unit::nat) \<Longrightarrow> ((v + unit - 1) div unit) * unit \<le> v + unit - 1"
  by simp

lemma roundup_mono:
  "(a::nat) \<le> b \<Longrightarrow> ((a + unit - 1) div unit) * unit \<le> ((b + unit - 1) div unit) * unit"
  by (simp add: div_le_mono)

lemma roundup_add_unit:
  assumes u: "0 < (unit::nat)"
  shows "((a + unit + unit - 1) div unit) * unit = ((a + unit - 1) div unit) * unit + unit"
proof -
  have "a + unit + unit - 1 = (a + unit - 1) + unit"
    using u by simp
  moreover have "((a + unit - 1) + unit) div unit = (a + unit - 1) div unit + 1"
    using u by (intro div_add_self2) simp
  ultimately have "(a + unit + unit - 1) div unit = (a + unit - 1) div unit + 1"
    by (simp only:)
  then show ?thesis
    by (simp only: add_mult_distrib mult_1)
qed

lemma alignBufferSize_small:
  assumes "0 < unit" "v + unit < 2 ^ 64"
  shows "alignBufferSize unit v = ((v + unit - 1) div unit) * unit"
proof -
  have "((v + unit - 1) div unit) * unit \<le> v + unit - 1"
    using assms(1) by (rule roundup_le)
  then have "((v + unit - 1) div unit) * unit < 2 ^ 64"
    using assms by linarith
  then show ?thesis
    by (simp add: alignBufferSize_def Index_align_def u64_def)
qed

lemma code_targetSize_dvd: "code_targetSize unit u d s m r mod unit = 0"
  by (simp add: code_targetSize_def Let_def)

text \<open>
  The constructor makes the array size the alignment unit, which is what the statements
  about \<open>calcArraysToAlloc\<close> below assume of the buffer type.
\<close>

lemma EnumBufferType_ctor_arraySize:
  assumes "0 < unit" "unit < 2 ^ 64"
  shows "arraySize (EnumBufferType_ctor unit offsetSize) = unit"
proof -
  have "(1 + unit - 1) div unit * unit = unit"
    using assms(1) by simp
  then show ?thesis
    using assms(2) by (simp add: EnumBufferType_ctor_def Index_align_def u64_def)
qed

section \<open>The sizes computed by calcArraysToAlloc\<close>

lemma firstNewSize_small:
  assumes unit: "0 < unit" "unit < 2 ^ 51"
    and dead: "deadElems t \<le> usedElemsOf t + max sizeNeeded (minSizeNeeded t)"
    and range: "usedElemsOf t + max sizeNeeded (minSizeNeeded t) < 2 ^ 51"
    and res: "reserved < 2 ^ 51"
  shows "firstNewSize unit reserved t sizeNeeded =
     Some (code_targetSize unit (usedElemsOf t) (deadElems t) sizeNeeded (minSizeNeeded t) reserved)"
proof -
  define x where "x = usedElemsOf t + max sizeNeeded (minSizeNeeded t) - deadElems t"
  have x: "add64 (sub64 (usedElemsOf t) (deadElems t)) (max sizeNeeded (minSizeNeeded t)) = x"
    unfolding x_def using dead range by (intro add64_sub64) simp_all
  have xs: "x < 2 ^ 51"
    unfolding x_def using range by simp
  have g: "3 * x div 2 < 2 ^ 52"
    using xs by simp
  show ?thesis
  proof (cases "usedElemsOf t = 0")
    case True
    have a: "add64 x reserved = x + reserved"
      using xs res by (intro add64_small) simp
    have b: "alignBufferSize unit (x + reserved) = ((x + reserved + unit - 1) div unit) * unit"
      using unit xs res by (intro alignBufferSize_small) simp_all
    have "firstNewSize unit reserved t sizeNeeded = Some (alignBufferSize unit (add64 x reserved))"
      unfolding firstNewSize_def Let_def x using True by simp
    also have "\<dots> = Some (((x + reserved + unit - 1) div unit) * unit)"
      unfolding a b ..
    also have "\<dots> = Some (code_targetSize unit (usedElemsOf t) (deadElems t) sizeNeeded
        (minSizeNeeded t) reserved)"
      unfolding code_targetSize_def Let_def x_def using True by simp
    finally show ?thesis .
  next
    case False
    have a: "add64 (3 * x div 2) reserved = 3 * x div 2 + reserved"
      using g res by (intro add64_small) simp
    have b: "alignBufferSize unit (3 * x div 2 + reserved) =
        ((3 * x div 2 + reserved + unit - 1) div unit) * unit"
      using unit g res by (intro alignBufferSize_small) simp_all
    have "firstNewSize unit reserved t sizeNeeded =
        Some (alignBufferSize unit (add64 (3 * x div 2) reserved))"
      unfolding firstNewSize_def Let_def x using False by (simp add: mulGrowRatio_small [OF xs])
    also have "\<dots> = Some (((3 * x div 2 + reserved + unit - 1) div unit) * unit)"
      unfolding a b ..
    also have "\<dots> = Some (code_targetSize unit (usedElemsOf t) (deadElems t) sizeNeeded
        (minSizeNeeded t) reserved)"
      unfolding code_targetSize_def Let_def x_def using False by simp
    finally show ?thesis .
  qed
qed

lemma retryNewSize_small:
  assumes unit: "0 < unit" "unit < 2 ^ 51"
    and dead: "deadElems t \<le> usedElemsOf t + max sizeNeeded (minSizeNeeded t)"
    and range: "usedElemsOf t + max sizeNeeded (minSizeNeeded t) < 2 ^ 51"
    and res: "reserved < 2 ^ 51"
  shows "retryNewSize unit reserved t sizeNeeded =
     ((usedElemsOf t + max sizeNeeded (minSizeNeeded t) - deadElems t + reserved + 1000000
        + unit - 1) div unit) * unit"
proof -
  define x where "x = usedElemsOf t + max sizeNeeded (minSizeNeeded t) - deadElems t"
  have x: "add64 (sub64 (usedElemsOf t) (deadElems t)) (max sizeNeeded (minSizeNeeded t)) = x"
    unfolding x_def using dead range by (intro add64_sub64) simp_all
  have xs: "x < 2 ^ 51"
    unfolding x_def using range by simp
  have a: "add64 x reserved = x + reserved"
    using xs res by (intro add64_small) simp
  have b: "add64 (x + reserved) 1000000 = x + reserved + 1000000"
    using xs res by (intro add64_small) simp
  have c: "alignBufferSize unit (x + reserved + 1000000) =
      ((x + reserved + 1000000 + unit - 1) div unit) * unit"
    using unit xs res by (intro alignBufferSize_small) simp_all
  have "retryNewSize unit reserved t sizeNeeded =
      ((x + reserved + 1000000 + unit - 1) div unit) * unit"
    unfolding retryNewSize_def Let_def x a b c ..
  then show ?thesis
    unfolding x_def .
qed

lemma retry_smaller:
  assumes unit: "0 < unit" "unit < 2 ^ 51"
    and dead: "deadElems t \<le> usedElemsOf t + max sizeNeeded (minSizeNeeded t)"
    and range: "usedElemsOf t + max sizeNeeded (minSizeNeeded t) < 2 ^ 51"
    and res: "reserved < 2 ^ 51"
    and used: "usedElemsOf t \<noteq> 0"
    and big: "2 * (1000000 + unit) \<le> usedElemsOf t + max sizeNeeded (minSizeNeeded t) - deadElems t"
    and first: "firstNewSize unit reserved t sizeNeeded = Some n1"
  shows "retryNewSize unit reserved t sizeNeeded < n1"
proof -
  define x where "x = usedElemsOf t + max sizeNeeded (minSizeNeeded t) - deadElems t"
  have r: "retryNewSize unit reserved t sizeNeeded = ((x + reserved + 1000000 + unit - 1) div unit) * unit"
    unfolding x_def using unit dead range res by (rule retryNewSize_small)
  have "firstNewSize unit reserved t sizeNeeded =
      Some (code_targetSize unit (usedElemsOf t) (deadElems t) sizeNeeded (minSizeNeeded t) reserved)"
    using unit dead range res by (rule firstNewSize_small)
  with first used have n1: "n1 = ((3 * x div 2 + reserved + unit - 1) div unit) * unit"
    by (simp add: code_targetSize_def Let_def x_def)
  have "x + reserved + 1000000 + unit \<le> 3 * x div 2 + reserved"
    using big unfolding x_def [symmetric] by presburger
  then have "((x + reserved + 1000000 + unit + unit - 1) div unit) * unit \<le> n1"
    unfolding n1 by (rule roundup_mono)
  then have "((x + reserved + 1000000 + unit - 1) div unit) * unit + unit \<le> n1"
    using roundup_add_unit [OF unit(1), of "x + reserved + 1000000"] by simp
  then show ?thesis
    unfolding r using unit(1) by linarith
qed

lemma exampleType_simps:
  "arraySize exampleType = 4" "maxArrays exampleType = 1000" "minSizeNeeded exampleType = 0"
  "deadElems exampleType = 0" "usedElemsOf exampleType = 0" "maxSizeOf exampleType = 4000"
  by (simp_all add: exampleType_def usedElemsOf_def maxSizeOf_def)

lemma exampleType2_simps:
  "arraySize exampleType2 = 4" "maxArrays exampleType2 = 1000" "minSizeNeeded exampleType2 = 40"
  "deadElems exampleType2 = 0" "usedElemsOf exampleType2 = 4" "maxSizeOf exampleType2 = 4000"
  by (simp_all add: exampleType2_def exampleType_def usedElemsOf_def maxSizeOf_def)

lemma exampleType3_simps:
  "arraySize exampleType3 = 4" "maxArrays exampleType3 = 1100000" "minSizeNeeded exampleType3 = 0"
  "deadElems exampleType3 = 0" "usedElemsOf exampleType3 = 4" "maxSizeOf exampleType3 = 4400000"
  by (simp_all add: exampleType3_def exampleType_def usedElemsOf_def maxSizeOf_def)

lemma firstNewSize_exampleType: "firstNewSize 4 0 exampleType 8 = Some 8"
  by (simp add: firstNewSize_def exampleType_simps sub64_zero add64_small alignBufferSize_small)

lemma firstNewSize_exampleType2: "firstNewSize 4 0 exampleType2 4 = Some 68"
  by (simp add: firstNewSize_def exampleType2_simps sub64_zero add64_small mulGrowRatio_small
      alignBufferSize_small)

lemma firstNewSize_exampleType_large: "firstNewSize 4 0 exampleType 5000 = Some 5000"
  by (simp add: firstNewSize_def exampleType_simps sub64_zero add64_small alignBufferSize_small)

lemma retryNewSize_exampleType_large: "retryNewSize 4 0 exampleType 5000 = 1005000"
  by (simp add: retryNewSize_def exampleType_simps sub64_zero add64_small alignBufferSize_small)

lemma firstNewSize_exampleType3: "firstNewSize 4 0 exampleType3 3000000 = Some 4500008"
  by (simp add: firstNewSize_def exampleType3_simps sub64_zero add64_small mulGrowRatio_small
      alignBufferSize_small)

lemma retryNewSize_exampleType3: "retryNewSize 4 0 exampleType3 3000000 = 4000004"
  by (simp add: retryNewSize_def exampleType3_simps sub64_zero add64_small alignBufferSize_small)

section \<open>Growth policy of calcArraysToAlloc\<close>

text \<open>
  Claim C1, as the code has it. The specification's formula takes the maximum of
  \<open>minSizeNeeded\<close> and the grown sum; the code raises the request to \<open>minSizeNeeded\<close>
  first and grows the whole sum, and it grows only when elements are in use. In the range
  where no 64-bit operation wraps and the product in \<open>double\<close> is exact (sums below
  \<open>2 ^ 51\<close>), with the array size equal to the alignment unit as the constructor sets
  it, and the used element count a multiple of it as the assertion demands: the first size
  computed is \<open>((usedElems - deadElems + max sizeNeeded minSizeNeeded) * g + reserved)\<close>
  rounded up to the alignment unit, where \<open>g\<close> is 1.5 (truncated) when
  \<open>usedElems \<noteq> 0\<close> and 1 otherwise; whenever this size does not exceed the maximum
  capacity \<open>maxArrays * arraySize\<close>, the function returns it divided by the array size.
\<close>

theorem calcArraysToAlloc_growth:
  assumes unit: "0 < unit" "unit < 2 ^ 51"
    and arr: "arraySize t = unit"
    and used: "usedElemsOf t mod unit = 0"
    and dead: "deadElems t \<le> usedElemsOf t + max sizeNeeded (minSizeNeeded t)"
    and range: "usedElemsOf t + max sizeNeeded (minSizeNeeded t) < 2 ^ 51"
    and res: "getReservedElements bufferId < 2 ^ 51"
  shows "firstNewSize unit (getReservedElements bufferId) t sizeNeeded =
           Some (code_targetSize unit (usedElemsOf t) (deadElems t) sizeNeeded (minSizeNeeded t)
                  (getReservedElements bufferId)) \<and>
         (code_targetSize unit (usedElemsOf t) (deadElems t) sizeNeeded (minSizeNeeded t)
              (getReservedElements bufferId) \<le> maxSizeOf t \<longrightarrow>
          calcArraysToAlloc unit getReservedElements t bufferId sizeNeeded resizing =
            Inr (code_targetSize unit (usedElemsOf t) (deadElems t) sizeNeeded (minSizeNeeded t)
                  (getReservedElements bufferId) div arraySize t))"
proof -
  have f: "firstNewSize unit (getReservedElements bufferId) t sizeNeeded =
           Some (code_targetSize unit (usedElemsOf t) (deadElems t) sizeNeeded (minSizeNeeded t)
                  (getReservedElements bufferId))"
    using unit dead range res by (rule firstNewSize_small)
  have "calcArraysToAlloc unit getReservedElements t bufferId sizeNeeded resizing =
            Inr (code_targetSize unit (usedElemsOf t) (deadElems t) sizeNeeded (minSizeNeeded t)
                  (getReservedElements bufferId) div arraySize t)"
    if "code_targetSize unit (usedElemsOf t) (deadElems t) sizeNeeded (minSizeNeeded t)
              (getReservedElements bufferId) \<le> maxSizeOf t"
    unfolding calcArraysToAlloc_def Let_def f using that unit(1) arr used
    by (simp add: code_targetSize_dvd)
  with f show ?thesis by blast
qed

text \<open>
  The theorem at a buffer type with four used elements, a request of 4 raised to the
  minimum 40: \<open>(4 + 40) * 1.5 = 66\<close>, aligned to 68, that is 17 arrays of size 4.
\<close>

theorem calcArraysToAlloc_growth_witness:
  "firstNewSize 4 0 exampleType2 4 = Some 68 \<and>
   calcArraysToAlloc 4 (\<lambda>b. 0) exampleType2 0 4 False = Inr 17"
  using calcArraysToAlloc_growth [of 4 exampleType2 4 "\<lambda>b. 0" 0 False]
  by (simp add: exampleType2_simps code_targetSize_def)

text \<open>
  The formula of the specification is not what the code computes. With no element in
  use and a request of 8 the code allocates 2 arrays of size 4 (no growth), the formula
  gives 12 elements, 3 arrays. With 4 elements in use, a request of 4 and a minimum of 40
  the code allocates 17 arrays, the formula gives \<open>max 40 12 = 40\<close> elements, 10 arrays.
\<close>

theorem calcArraysToAlloc_spec_formula_counterexample:
  "calcArraysToAlloc 4 (\<lambda>b. 0) exampleType 0 8 False = Inr 2
   \<and> spec_targetSize 4 0 0 8 0 0 = 12
   \<and> spec_targetSize 4 0 0 8 0 0 \<le> maxSizeOf exampleType
   \<and> spec_targetSize 4 0 0 8 0 0 div arraySize exampleType = 3
   \<and> calcArraysToAlloc 4 (\<lambda>b. 0) exampleType2 0 4 False = Inr 17
   \<and> spec_targetSize 4 4 0 4 40 0 = 40
   \<and> spec_targetSize 4 4 0 4 40 0 \<le> maxSizeOf exampleType2
   \<and> spec_targetSize 4 4 0 4 40 0 div arraySize exampleType2 = 10"
  by (simp add: calcArraysToAlloc_def exampleType_simps exampleType2_simps
      firstNewSize_exampleType firstNewSize_exampleType2 spec_targetSize_def)

section \<open>The retry of calcArraysToAlloc\<close>

text \<open>
  Claim C2, as the code has it. When the first size exceeds the maximum capacity (and the
  assertions on alignment hold), the function computes exactly one further size, the sum
  without growth plus the reserved elements plus a slack of 1000000, aligned. If that
  size fits, the call returns \<open>maxArrays\<close>; if not, it throws the
  \<open>IllegalStateException\<close> of \<open>failNewSize\<close> with that size and the maximum, and
  returns no size. The retry size is smaller than the first one when elements are in
  use and the sum without growth is at least twice the slack plus the unit (in the range
  where nothing wraps); it is not smaller in general.
\<close>

theorem calcArraysToAlloc_retry_once:
  assumes arr: "0 < arraySize t"
    and used: "usedElemsOf t mod arraySize t = 0"
    and first: "firstNewSize unit (getReservedElements bufferId) t sizeNeeded = Some n1"
    and al1: "n1 mod arraySize t = 0"
    and exceeds: "maxSizeOf t < n1"
    and al2: "retryNewSize unit (getReservedElements bufferId) t sizeNeeded mod arraySize t = 0"
  shows "calcArraysToAlloc unit getReservedElements t bufferId sizeNeeded resizing =
           (if retryNewSize unit (getReservedElements bufferId) t sizeNeeded \<le> maxSizeOf t
            then Inr (maxArrays t)
            else Inl (IllegalStateException
                        (retryNewSize unit (getReservedElements bufferId) t sizeNeeded)
                        (maxSizeOf t))) \<and>
         (0 < unit \<and> unit < 2 ^ 51 \<and>
          deadElems t \<le> usedElemsOf t + max sizeNeeded (minSizeNeeded t) \<and>
          usedElemsOf t + max sizeNeeded (minSizeNeeded t) < 2 ^ 51 \<and>
          getReservedElements bufferId < 2 ^ 51 \<and>
          usedElemsOf t \<noteq> 0 \<and>
          2 * (1000000 + unit) \<le> usedElemsOf t + max sizeNeeded (minSizeNeeded t) - deadElems t
          \<longrightarrow> retryNewSize unit (getReservedElements bufferId) t sizeNeeded < n1)"
proof -
  have "calcArraysToAlloc unit getReservedElements t bufferId sizeNeeded resizing =
           (if retryNewSize unit (getReservedElements bufferId) t sizeNeeded \<le> maxSizeOf t
            then Inr (maxArrays t)
            else Inl (IllegalStateException
                        (retryNewSize unit (getReservedElements bufferId) t sizeNeeded)
                        (maxSizeOf t)))"
    unfolding calcArraysToAlloc_def Let_def first failNewSize_def
    using arr used al1 exceeds al2 by simp
  moreover have "retryNewSize unit (getReservedElements bufferId) t sizeNeeded < n1"
    if "0 < unit" "unit < 2 ^ 51"
      "deadElems t \<le> usedElemsOf t + max sizeNeeded (minSizeNeeded t)"
      "usedElemsOf t + max sizeNeeded (minSizeNeeded t) < 2 ^ 51"
      "getReservedElements bufferId < 2 ^ 51"
      "usedElemsOf t \<noteq> 0"
      "2 * (1000000 + unit) \<le> usedElemsOf t + max sizeNeeded (minSizeNeeded t) - deadElems t"
    using that first by (rule retry_smaller)
  ultimately show ?thesis by blast
qed

text \<open>
  The theorem at a buffer type of capacity 4400000 with 4 elements in use and a request of
  3000000: the first size 4500008 exceeds the capacity, the retry size 4000004 is
  smaller and fits, and the call returns the 1100000 arrays of the capacity.
\<close>

theorem calcArraysToAlloc_retry_once_witness:
  "calcArraysToAlloc 4 (\<lambda>b. 0) exampleType3 0 3000000 False = Inr 1100000 \<and>
   retryNewSize 4 0 exampleType3 3000000 < 4500008"
  using calcArraysToAlloc_retry_once [of exampleType3 4 "\<lambda>b. 0" 0 3000000 4500008 False]
  by (simp add: exampleType3_simps firstNewSize_exampleType3 retryNewSize_exampleType3)

text \<open>
  The retry size is not always smaller. With no element in use, a capacity of 4000 and a
  request of 5000 the first size is 5000, the retry size is 1005000, and the call
  throws.
\<close>

theorem calcArraysToAlloc_retry_smaller_counterexample:
  "firstNewSize 4 0 exampleType 5000 = Some 5000
   \<and> maxSizeOf exampleType < 5000
   \<and> 5000 < retryNewSize 4 0 exampleType 5000
   \<and> calcArraysToAlloc 4 (\<lambda>b. 0) exampleType 0 5000 False =
       Inl (IllegalStateException 1005000 4000)"
  by (simp add: calcArraysToAlloc_def exampleType_simps firstNewSize_exampleType_large
      retryNewSize_exampleType_large failNewSize_def)

section \<open>Trimming the hold lists\<close>

lemma trimHoldList_freed:
  "fst (trimHoldList firstUsed es) = map fst (filter (\<lambda>e. snd e < firstUsed) es)"
  by (induction es) (auto split: prod.splits)

lemma trimHoldList_kept:
  "snd (trimHoldList firstUsed es) = filter (\<lambda>e. firstUsed \<le> snd e) es"
  by (induction es) (auto split: prod.splits)

lemma trim_hold_lists_eq:
  "trim_hold_lists firstUsed d =
     d\<lparr>dictHoldList := filter (\<lambda>e. firstUsed \<le> snd e) (dictHoldList d),
       dictFreed := dictFreed d @ map fst (filter (\<lambda>e. snd e < firstUsed) (dictHoldList d))\<rparr>"
  by (simp add: trim_hold_lists_def case_prod_beta trimHoldList_freed trimHoldList_kept)

lemma DataStore_trimHoldLists_eq:
  "DataStore_trimHoldLists firstUsed st =
     st\<lparr>storeHoldList := filter (\<lambda>e. firstUsed \<le> snd e) (storeHoldList st),
        storeFreed := storeFreed st @ map fst (filter (\<lambda>e. snd e < firstUsed) (storeHoldList st))\<rparr>"
  by (simp add: DataStore_trimHoldLists_def case_prod_beta trimHoldList_freed trimHoldList_kept)

text \<open>
  Claim C3. \<open>trimHoldLists firstUsed\<close> adds to the freed resources of the dictionary and
  of the data store exactly the resources of the held entries whose retirement generation
  is less than \<open>firstUsed\<close>, in the order of the hold list; the entries it keeps on hold
  are exactly those with a generation of \<open>firstUsed\<close> or more, so that every such entry
  is still held afterwards and none of them is freed.
\<close>

theorem trimHoldLists_frees_exactly:
  "dictFreed (enumDict (trimHoldLists firstUsed s)) =
     dictFreed (enumDict s) @
       map fst (filter (\<lambda>e. snd e < firstUsed) (dictHoldList (enumDict s)))
   \<and> dictHoldList (enumDict (trimHoldLists firstUsed s)) =
       filter (\<lambda>e. firstUsed \<le> snd e) (dictHoldList (enumDict s))
   \<and> storeFreed (store (trimHoldLists firstUsed s)) =
       storeFreed (store s) @
         map fst (filter (\<lambda>e. snd e < firstUsed) (storeHoldList (store s)))
   \<and> storeHoldList (store (trimHoldLists firstUsed s)) =
       filter (\<lambda>e. firstUsed \<le> snd e) (storeHoldList (store s))
   \<and> (\<forall>e \<in> set (dictHoldList (enumDict s)).
         firstUsed \<le> snd e \<longrightarrow> e \<in> set (dictHoldList (enumDict (trimHoldLists firstUsed s))))
   \<and> (\<forall>e \<in> set (storeHoldList (store s)).
         firstUsed \<le> snd e \<longrightarrow> e \<in> set (storeHoldList (store (trimHoldLists firstUsed s))))"
  by (simp add: trimHoldLists_def Let_def trim_hold_lists_eq DataStore_trimHoldLists_eq)

text \<open>
  The theorem at the example store and \<open>firstUsed = 5\<close>: node 10 (generation 3) and
  resource 20 (generation 4) are freed, the entries of generation 5 and more stay.
\<close>

theorem trimHoldLists_frees_exactly_witness:
  "dictFreed (enumDict (trimHoldLists 5 exampleEnumStore)) = [10]
   \<and> dictHoldList (enumDict (trimHoldLists 5 exampleEnumStore)) = [(11, 5), (12, 7)]
   \<and> storeFreed (store (trimHoldLists 5 exampleEnumStore)) = [20]
   \<and> storeHoldList (store (trimHoldLists 5 exampleEnumStore)) = [(21, 5), (22, 9)]
   \<and> (11, 5) \<in> set (dictHoldList (enumDict (trimHoldLists 5 exampleEnumStore)))"
  using trimHoldLists_frees_exactly [of 5 exampleEnumStore]
  by (simp add: exampleEnumStore_def)

section \<open>preCompact and the address space\<close>

lemma findState_None: "findState status i bs = None \<longleftrightarrow> status \<notin> bs_state ` set bs"
  by (induction bs arbitrary: i) auto

lemma findState_Some_less: "findState status i bs = Some j \<Longrightarrow> j < i + length bs"
proof (induction bs arbitrary: i)
  case Nil
  then show ?case by simp
next
  case (Cons b bs)
  show ?case
  proof (cases "bs_state b = status")
    case True
    with Cons.prems show ?thesis by simp
  next
    case False
    with Cons.prems have "findState status (Suc i) bs = Some j" by simp
    then have "j < Suc i + length bs" by (rule Cons.IH)
    then show ?thesis by simp
  qed
qed

lemma getBufferIndex_eq_numBuffers:
  assumes "length (buffers (store s)) \<le> numBuffers"
  shows "getBufferIndex numBuffers s status = numBuffers \<longleftrightarrow>
         status \<notin> bs_state ` set (buffers (store s))"
proof (cases "findState status 0 (buffers (store s))")
  case None
  then have a: "getBufferIndex numBuffers s status = numBuffers"
    by (simp add: getBufferIndex_def)
  from None have b: "status \<notin> bs_state ` set (buffers (store s))"
    using findState_None [of status 0 "buffers (store s)"] by blast
  from a b show ?thesis
    by blast
next
  case (Some j)
  then have "j < length (buffers (store s))"
    using findState_Some_less [of status 0 "buffers (store s)" j] by simp
  moreover have "status \<in> bs_state ` set (buffers (store s))"
    using Some findState_None [of status 0 "buffers (store s)"] by auto
  ultimately show ?thesis
    using Some assms by (simp add: getBufferIndex_def)
qed

text \<open>
  Claim C5. In a store that has no more buffers than the reference type can address
  (\<open>Index::numBuffers()\<close>) and whose active buffer id is one of its buffers,
  \<open>preCompact bytesNeeded\<close> returns false, leaving everything as it is, exactly when no
  buffer is in the state \<open>FREE\<close>. Otherwise it returns true, having recorded in the
  buffer type \<open>bytesNeeded\<close> as the size needed together with the dead element count of
  the active buffer, and having started the compaction with the type so updated: the
  store and the type are as \<open>startCompact\<close> leaves them, and the buffers it returns
  are kept in \<open>_toHoldBuffers\<close>.
\<close>

theorem preCompact_free_buffer:
  assumes "length (buffers (store s)) \<le> numBuffers"
    and "activeBufferId (store s) < length (buffers (store s))"
  shows "preCompact numBuffers startCompact s bytesNeeded =
     (if FREE \<notin> bs_state ` set (buffers (store s)) then Inr (False, s)
      else
        Inr (True,
          s\<lparr>store :=
              snd (snd (startCompact
                ((enumType s)\<lparr>minSizeNeeded := bytesNeeded,
                   deadElems := bs_deadElems (buffers (store s) ! activeBufferId (store s))\<rparr>)
                (store s))),
            enumType :=
              fst (snd (startCompact
                ((enumType s)\<lparr>minSizeNeeded := bytesNeeded,
                   deadElems := bs_deadElems (buffers (store s) ! activeBufferId (store s))\<rparr>)
                (store s))),
            toHoldBuffers :=
              fst (startCompact
                ((enumType s)\<lparr>minSizeNeeded := bytesNeeded,
                   deadElems := bs_deadElems (buffers (store s) ! activeBufferId (store s))\<rparr>)
                (store s))\<rparr>))"
  using assms
  by (simp add: preCompact_def getBufferIndex_eq_numBuffers getBufferState_def
      setSizeNeededAndDead_def Let_def case_prod_beta)

text \<open>
  The theorem at the example store, which has a free buffer: the call returns true, the
  type records 64 bytes needed and the 20 dead elements of the active buffer 0, and buffer
  0 is to be held. At the store without a free buffer the call returns false.
\<close>

theorem preCompact_free_buffer_witness:
  "(case preCompact 3 exampleStartCompact exampleEnumStore 64 of
      Inl e \<Rightarrow> False
    | Inr (b, s') \<Rightarrow>
        b \<and> minSizeNeeded (enumType s') = 64 \<and> deadElems (enumType s') = 20 \<and>
        toHoldBuffers s' = [0] \<and> activeBufferId (store s') = 1)
   \<and> preCompact 3 exampleStartCompact exampleFullStore 64 = Inr (False, exampleFullStore)"
  using preCompact_free_buffer [of exampleEnumStore 3 exampleStartCompact 64]
    preCompact_free_buffer [of exampleFullStore 3 exampleStartCompact 64]
  by (simp add: exampleEnumStore_def exampleFullStore_def exampleStartCompact_def)

text \<open>
  Claim C9. In a store whose active buffer id is one of its buffers,
  \<open>getAddressSpaceUsage\<close> returns the used element count and the dead element count of
  the active buffer, and as the limit the constant \<open>RefType::offsetSize()\<close>, the
  capacity of the buffer space a reference can address.
\<close>

theorem getAddressSpaceUsage_triple:
  assumes "activeBufferId (store s) < length (buffers (store s))"
  shows "getAddressSpaceUsage offsetSize s =
     Inr \<lparr> as_used = bs_usedElems (buffers (store s) ! activeBufferId (store s)),
           as_dead = bs_deadElems (buffers (store s) ! activeBufferId (store s)),
           as_limit = offsetSize \<rparr>"
  using assms by (simp add: getAddressSpaceUsage_def getBufferState_def)

theorem getAddressSpaceUsage_triple_witness:
  "getAddressSpaceUsage 4294967296 exampleEnumStore =
     Inr \<lparr> as_used = 100, as_dead = 20, as_limit = 4294967296 \<rparr>"
  using getAddressSpaceUsage_triple [of exampleEnumStore 4294967296]
  by (simp add: exampleEnumStore_def)

section \<open>fixupRefCounts\<close>

lemma fixupLoop_eq:
  "fixupLoop f hist ti s =
     (if length hist \<le> length ti
      then Inr (drop (length hist) ti,
                fold (\<lambda>(key, h) s. f key h s) (zip (map fst ti) hist) s)
      else Inl AssertionFailed)"
proof (induction hist arbitrary: ti s)
  case Nil
  then show ?case by simp
next
  case (Cons h hist)
  show ?case
  proof (cases ti)
    case Nil
    then show ?thesis by simp
  next
    case (Cons kv ti')
    then show ?thesis
      by (cases kv) (simp add: Cons.IH)
  qed
qed

text \<open>
  Claim C8, as the code has it. For a historical vector that is not empty,
  \<open>fixupRefCounts\<close> walks the tree in order in step with the vector, and returns
  normally exactly when the tree has as many entries as the vector: then every key has
  been given the count at its position and the cleanup has run. If the tree ends before
  the vector, or has entries left after it, an assertion fails. For the empty vector the
  function returns before any assertion, whatever the tree holds.
\<close>

theorem fixupRefCounts_lockstep:
  assumes "hist \<noteq> []"
  shows "fixupRefCounts fixupRefCount freeUnusedEnums hist tree s =
     (if length tree = length hist
      then Inr (freeUnusedEnums False
                  (fold (\<lambda>(key, h) s. fixupRefCount key h s) (zip (map fst tree) hist) s))
      else Inl AssertionFailed)"
proof (cases "length hist \<le> length tree")
  case True
  then show ?thesis
    using assms by (auto simp: fixupRefCounts_def fixupLoop_eq)
next
  case False
  then show ?thesis
    using assms by (simp add: fixupRefCounts_def fixupLoop_eq)
qed

text \<open>
  The theorem at a tree of three keys and the counts \<open>[2, 0, 5]\<close>, the state being the
  list of the counts assigned, the cleanup recorded as a last entry; and at a tree of two
  keys, where the assertion fails.
\<close>

theorem fixupRefCounts_lockstep_witness:
  "fixupRefCounts (\<lambda>key h s. s @ [(key, h)]) (\<lambda>b s. s @ [(0, 0)]) [2, 0, 5]
       [(7, ()), (8, ()), (9, ())] [] =
     Inr [(7, 2), (8, 0), (9, 5), (0, 0)]
   \<and> fixupRefCounts (\<lambda>key h s. s @ [(key, h)]) (\<lambda>b s. s @ [(0, 0)]) [2, 0, 5]
       [(7, ()), (8, ())] [] =
     Inl AssertionFailed"
  using fixupRefCounts_lockstep [of "[2, 0, 5]" "\<lambda>key h s. s @ [(key, h)]" "\<lambda>b s. s @ [(0, 0)]"
      "[(7, ()), (8, ()), (9, ())]" "[]"]
    fixupRefCounts_lockstep [of "[2, 0, 5]" "\<lambda>key h s. s @ [(key, h)]" "\<lambda>b s. s @ [(0, 0)]"
      "[(7, ()), (8, ())]" "[]"]
  by simp

text \<open>
  With the empty vector and a tree of one key the iterator and the vector are not
  exhausted at the same point, and no assertion fails.
\<close>

theorem fixupRefCounts_empty_hist_counterexample:
  "length ([] :: nat list) \<noteq> length [(7 :: nat, ())]
   \<and> fixupRefCounts (\<lambda>key h s. s @ [(key, h)]) (\<lambda>b s. s @ [(0, 0)]) []
        [(7, ())] [] = Inr []"
  by (simp add: fixupRefCounts_def)

text \<open>
  Claim C10. With an empty historical vector \<open>fixupRefCounts\<close> returns at once and
  leaves the state as it is, for every tree, every state, and whatever \<open>fixupRefCount\<close>
  and \<open>freeUnusedEnums\<close> would do: neither is applied, and the tree is not read.
\<close>

theorem fixupRefCounts_empty_hist_noop:
  "fixupRefCounts fixupRefCount freeUnusedEnums [] tree s = Inr s"
  by (simp add: fixupRefCounts_def)

section \<open>The two passes of deserialize0\<close>

lemma sizePass_Nil: "sizePass sizeRecord [] initSpace = Some (Completed initSpace)"
  by (subst sizePass.simps) simp

lemma parsePass_Nil: "parsePass parseRecord [] idx s = Some (Completed (), idx, s)"
  by (subst parsePass.simps) simp

lemma sizePass_step:
  assumes "r \<noteq> []" "fst (sizeRecord (r @ p) initSpace) = int (length r)"
  shows "sizePass sizeRecord (r @ p) initSpace =
         sizePass sizeRecord p (snd (sizeRecord (r @ p) initSpace))"
  using assms by (subst sizePass.simps) (simp add: case_prod_beta)

lemma sizePass_error:
  assumes "p \<noteq> []" "fst (sizeRecord p initSpace) < 0"
  shows "sizePass sizeRecord p initSpace = Some (Returned (fst (sizeRecord p initSpace)))"
  using assms by (subst sizePass.simps) (simp add: case_prod_beta)

lemma parsePass_step:
  assumes "r \<noteq> []" "fst (parseRecord (r @ p) s) = int (length r)"
  shows "parsePass parseRecord (r @ p) idx s =
         parsePass parseRecord p (idx @ [fst (snd (parseRecord (r @ p) s))])
           (snd (snd (parseRecord (r @ p) s)))"
  using assms by (subst parsePass.simps) (simp add: case_prod_beta)

lemma parsePass_error:
  assumes "p \<noteq> []" "fst (parseRecord p s) < 0"
  shows "parsePass parseRecord p idx s =
         Some (Returned (fst (parseRecord p s)), idx, snd (snd (parseRecord p s)))"
  using assms by (subst parsePass.simps) (simp add: case_prod_beta)

lemma sizePass_framed:
  "sizeFramed sizeRecord recs rest initSpace \<Longrightarrow>
   sizePass sizeRecord (concat recs @ rest) initSpace =
   sizePass sizeRecord rest (sizeTotal sizeRecord recs rest initSpace)"
proof (induction recs arbitrary: initSpace)
  case Nil
  then show ?case by simp
next
  case (Cons r recs)
  from Cons.prems have r: "r \<noteq> []"
    and sz: "fst (sizeRecord (r @ concat recs @ rest) initSpace) = int (length r)"
    and fr: "sizeFramed sizeRecord recs rest (snd (sizeRecord (r @ concat recs @ rest) initSpace))"
    by simp_all
  have "sizePass sizeRecord (r @ concat recs @ rest) initSpace =
        sizePass sizeRecord (concat recs @ rest)
          (snd (sizeRecord (r @ concat recs @ rest) initSpace))"
    using r sz by (rule sizePass_step)
  also have "\<dots> = sizePass sizeRecord rest
      (sizeTotal sizeRecord recs rest (snd (sizeRecord (r @ concat recs @ rest) initSpace)))"
    using fr by (rule Cons.IH)
  finally show ?case by simp
qed

lemma parsePass_framed:
  "parseFramed parseRecord recs rest s \<Longrightarrow>
   parsePass parseRecord (concat recs @ rest) idx s =
   parsePass parseRecord rest (idx @ parsedIndices parseRecord recs rest s)
     (parsedStore parseRecord recs rest s)"
proof (induction recs arbitrary: idx s)
  case Nil
  then show ?case by simp
next
  case (Cons r recs)
  from Cons.prems have r: "r \<noteq> []"
    and sz: "fst (parseRecord (r @ concat recs @ rest) s) = int (length r)"
    and fr: "parseFramed parseRecord recs rest (snd (snd (parseRecord (r @ concat recs @ rest) s)))"
    by simp_all
  have "parsePass parseRecord (r @ concat recs @ rest) idx s =
        parsePass parseRecord (concat recs @ rest)
          (idx @ [fst (snd (parseRecord (r @ concat recs @ rest) s))])
          (snd (snd (parseRecord (r @ concat recs @ rest) s)))"
    using r sz by (rule parsePass_step)
  also have "\<dots> = parsePass parseRecord rest
      ((idx @ [fst (snd (parseRecord (r @ concat recs @ rest) s))]) @
        parsedIndices parseRecord recs rest (snd (snd (parseRecord (r @ concat recs @ rest) s))))
      (parsedStore parseRecord recs rest (snd (snd (parseRecord (r @ concat recs @ rest) s))))"
    using fr by (rule Cons.IH)
  finally show ?case by simp
qed

lemma build_tree:
  "foldl (\<lambda>builder i. Builder_insert builder i d) acc idx = acc @ map (\<lambda>i. (i, d)) idx"
  by (induction idx arbitrary: acc) (simp_all add: Builder_insert_def)

lemma deserialize0_complete:
  assumes sf: "sizeFramed sizeRecord recs [] (Index_align unit 1)"
    and pf: "parseFramed parseRecord recs []
               (reset c (sizeTotal sizeRecord recs [] (Index_align unit 1)) s)"
  shows "deserialize0 c unit sizeRecord parseRecord (concat recs) idx s =
     Some (Inr (int (length (concat recs)),
       idx @ parsedIndices parseRecord recs []
               (reset c (sizeTotal sizeRecord recs [] (Index_align unit 1)) s),
       parsedStore parseRecord recs []
         (reset c (sizeTotal sizeRecord recs [] (Index_align unit 1)) s)))"
proof -
  have a: "sizePass sizeRecord (concat recs) (Index_align unit 1) =
      Some (Completed (sizeTotal sizeRecord recs [] (Index_align unit 1)))"
    using sizePass_framed [OF sf] by (simp only: sizePass_Nil append_Nil2)
  have b: "parsePass parseRecord (concat recs) idx
        (reset c (sizeTotal sizeRecord recs [] (Index_align unit 1)) s) =
      Some (Completed (),
        idx @ parsedIndices parseRecord recs []
               (reset c (sizeTotal sizeRecord recs [] (Index_align unit 1)) s),
        parsedStore parseRecord recs []
          (reset c (sizeTotal sizeRecord recs [] (Index_align unit 1)) s))"
    using parsePass_framed [OF pf, of idx] by (simp only: parsePass_Nil append_Nil2)
  show ?thesis
    by (simp only: deserialize0_def a b option.case scan.case prod.case)
qed

lemma deserialize0_size_error:
  assumes sf: "sizeFramed sizeRecord recs rest (Index_align unit 1)"
    and rest: "rest \<noteq> []"
    and neg: "fst (sizeRecord rest (sizeTotal sizeRecord recs rest (Index_align unit 1))) < 0"
  shows "deserialize0 c unit sizeRecord parseRecord (concat recs @ rest) idx s =
     Some (Inr (fst (sizeRecord rest (sizeTotal sizeRecord recs rest (Index_align unit 1))),
       idx, s))"
proof -
  have e: "sizePass sizeRecord rest (sizeTotal sizeRecord recs rest (Index_align unit 1)) =
      Some (Returned (fst (sizeRecord rest (sizeTotal sizeRecord recs rest (Index_align unit 1)))))"
    using rest neg by (rule sizePass_error)
  have a: "sizePass sizeRecord (concat recs @ rest) (Index_align unit 1) =
      Some (Returned (fst (sizeRecord rest (sizeTotal sizeRecord recs rest (Index_align unit 1)))))"
    using sizePass_framed [OF sf] e by (simp only:)
  show ?thesis
    by (simp only: deserialize0_def a option.case scan.case)
qed

lemma deserialize0_parse_error:
  assumes sf: "sizeFramed sizeRecord recsA [] (Index_align unit 1)"
    and src: "concat recsA = concat recs @ rest"
    and pf: "parseFramed parseRecord recs rest
               (reset c (sizeTotal sizeRecord recsA [] (Index_align unit 1)) s)"
    and rest: "rest \<noteq> []"
    and neg: "fst (parseRecord rest (parsedStore parseRecord recs rest
               (reset c (sizeTotal sizeRecord recsA [] (Index_align unit 1)) s))) < 0"
  shows "deserialize0 c unit sizeRecord parseRecord (concat recs @ rest) idx s =
     Some (Inr (fst (parseRecord rest (parsedStore parseRecord recs rest
                  (reset c (sizeTotal sizeRecord recsA [] (Index_align unit 1)) s))),
       idx @ parsedIndices parseRecord recs rest
               (reset c (sizeTotal sizeRecord recsA [] (Index_align unit 1)) s),
       snd (snd (parseRecord rest (parsedStore parseRecord recs rest
                  (reset c (sizeTotal sizeRecord recsA [] (Index_align unit 1)) s))))))"
proof -
  have a: "sizePass sizeRecord (concat recs @ rest) (Index_align unit 1) =
      Some (Completed (sizeTotal sizeRecord recsA [] (Index_align unit 1)))"
    using sizePass_framed [OF sf] by (simp only: sizePass_Nil src append_Nil2)
  have b: "parsePass parseRecord (concat recs @ rest) idx
        (reset c (sizeTotal sizeRecord recsA [] (Index_align unit 1)) s) =
      Some (Returned (fst (parseRecord rest (parsedStore parseRecord recs rest
                  (reset c (sizeTotal sizeRecord recsA [] (Index_align unit 1)) s)))),
        idx @ parsedIndices parseRecord recs rest
               (reset c (sizeTotal sizeRecord recsA [] (Index_align unit 1)) s),
        snd (snd (parseRecord rest (parsedStore parseRecord recs rest
                  (reset c (sizeTotal sizeRecord recsA [] (Index_align unit 1)) s)))))"
  proof -
    have e: "parsePass parseRecord rest
        (idx @ parsedIndices parseRecord recs rest
               (reset c (sizeTotal sizeRecord recsA [] (Index_align unit 1)) s))
        (parsedStore parseRecord recs rest
               (reset c (sizeTotal sizeRecord recsA [] (Index_align unit 1)) s)) =
      Some (Returned (fst (parseRecord rest (parsedStore parseRecord recs rest
                  (reset c (sizeTotal sizeRecord recsA [] (Index_align unit 1)) s)))),
        idx @ parsedIndices parseRecord recs rest
               (reset c (sizeTotal sizeRecord recsA [] (Index_align unit 1)) s),
        snd (snd (parseRecord rest (parsedStore parseRecord recs rest
                  (reset c (sizeTotal sizeRecord recsA [] (Index_align unit 1)) s)))))"
      using rest neg by (rule parsePass_error)
    show ?thesis
      using parsePass_framed [OF pf, of idx] e by (simp only:)
  qed
  show ?thesis
    by (simp only: deserialize0_def a b option.case scan.case prod.case)
qed

section \<open>deserialize\<close>

lemma reset_explicit:
  "reset c n s =
     s\<lparr>store :=
         snd (initActiveBuffers c
           ((fst (dropBuffers c (fst (clearHoldLists c (enumType s) (store s)))
                   (snd (clearHoldLists c (enumType s) (store s)))))
              \<lparr>minSizeNeeded := n, deadElems := 0\<rparr>)
           (snd (dropBuffers c (fst (clearHoldLists c (enumType s) (store s)))
                   (snd (clearHoldLists c (enumType s) (store s)))))),
       enumType :=
         fst (initActiveBuffers c
           ((fst (dropBuffers c (fst (clearHoldLists c (enumType s) (store s)))
                   (snd (clearHoldLists c (enumType s) (store s)))))
              \<lparr>minSizeNeeded := n, deadElems := 0\<rparr>)
           (snd (dropBuffers c (fst (clearHoldLists c (enumType s) (store s)))
                   (snd (clearHoldLists c (enumType s) (store s)))))),
       enumDict := onReset c (enumDict s)\<rparr>"
  by (simp add: reset_def setSizeNeededAndDead_def Let_def case_prod_beta)

text \<open>
  Claim C6. For an input that is a sequence of records which both per-record functions
  consume one by one, \<open>deserialize\<close> makes two passes over the same bytes. The first
  pass touches nothing but \<open>initSpace\<close>, which it accumulates over the records starting
  from \<open>Index::align(1)\<close>. The store is then reset to that size: the hold lists are
  cleared and the buffers dropped, the buffer type records the accumulated size as the
  size needed and zero dead elements, the active buffers are set up again with the type
  so updated, and the dictionary is reset; nothing else of the enum store changes. The
  second pass parses the records again from the first byte, on the store just reset, and
  appends the index of each record, in order, to the index vector. The tree is assembled
  from the index vector with default data, and the size returned is the length of the
  input.
\<close>

theorem deserialize_two_passes:
  assumes sf: "sizeFramed sizeRecord recs [] (Index_align unit 1)"
    and pf: "parseFramed parseRecord recs []
               (reset c (sizeTotal sizeRecord recs [] (Index_align unit 1)) s)"
  shows "sizePass sizeRecord (concat recs) (Index_align unit 1) =
           Some (Completed (sizeTotal sizeRecord recs [] (Index_align unit 1)))
     \<and> deserialize c unit sizeRecord parseRecord dataDefault (concat recs) idx tree s =
         Some (Inr (int (length (concat recs)),
           idx @ parsedIndices parseRecord recs []
                   (reset c (sizeTotal sizeRecord recs [] (Index_align unit 1)) s),
           map (\<lambda>i. (i, dataDefault))
             (idx @ parsedIndices parseRecord recs []
                   (reset c (sizeTotal sizeRecord recs [] (Index_align unit 1)) s)),
           parsedStore parseRecord recs []
             (reset c (sizeTotal sizeRecord recs [] (Index_align unit 1)) s)))
     \<and> (let n = sizeTotal sizeRecord recs [] (Index_align unit 1);
             cleared = clearHoldLists c (enumType s) (store s);
             dropped = dropBuffers c (fst cleared) (snd cleared);
             active = initActiveBuffers c
                        ((fst dropped)\<lparr>minSizeNeeded := n, deadElems := 0\<rparr>) (snd dropped)
         in reset c n s =
              s\<lparr>store := snd active, enumType := fst active,
                enumDict := onReset c (enumDict s)\<rparr>)"
proof -
  have a: "sizePass sizeRecord (concat recs) (Index_align unit 1) =
      Some (Completed (sizeTotal sizeRecord recs [] (Index_align unit 1)))"
    using sizePass_framed [OF sf] by (simp only: sizePass_Nil append_Nil2)
  have c: "deserialize c unit sizeRecord parseRecord dataDefault (concat recs) idx tree s =
         Some (Inr (int (length (concat recs)),
           idx @ parsedIndices parseRecord recs []
                   (reset c (sizeTotal sizeRecord recs [] (Index_align unit 1)) s),
           map (\<lambda>i. (i, dataDefault))
             (idx @ parsedIndices parseRecord recs []
                   (reset c (sizeTotal sizeRecord recs [] (Index_align unit 1)) s)),
           parsedStore parseRecord recs []
             (reset c (sizeTotal sizeRecord recs [] (Index_align unit 1)) s)))"
    unfolding deserialize_def deserialize0_complete [OF sf pf]
    by (simp add: build_tree Tree_assign_def)
  have r: "let n = sizeTotal sizeRecord recs [] (Index_align unit 1);
             cleared = clearHoldLists c (enumType s) (store s);
             dropped = dropBuffers c (fst cleared) (snd cleared);
             active = initActiveBuffers c
                        ((fst dropped)\<lparr>minSizeNeeded := n, deadElems := 0\<rparr>) (snd dropped)
         in reset c n s =
              s\<lparr>store := snd active, enumType := fst active,
                enumDict := onReset c (enumDict s)\<rparr>"
    unfolding Let_def by (rule reset_explicit)
  from a c r show ?thesis by blast
qed

lemma example_align: "Index_align 4 1 = 4" "Index_align 4 (Suc 0) = 4"
  by (simp_all add: Index_align_def u64_def)

lemma example_reset:
  "reset exampleCollaborators 20 exampleEnumStore =
     \<lparr> enumDict = \<lparr> dictHoldList = [], dictFreed = [] \<rparr>,
       store =
         \<lparr> buffers =
             [\<lparr> bs_state = ACTIVE, bs_usedElems = 0, bs_deadElems = 0 \<rparr>,
              \<lparr> bs_state = FREE, bs_usedElems = 0, bs_deadElems = 0 \<rparr>,
              \<lparr> bs_state = FREE, bs_usedElems = 0, bs_deadElems = 0 \<rparr>],
           activeBufferId = 0,
           storeHoldList = [],
           storeFreed = [] \<rparr>,
       enumType = exampleType\<lparr>minSizeNeeded := 20\<rparr>,
       toHoldBuffers = [] \<rparr>"
  by (simp add: reset_explicit exampleCollaborators_def exampleEnumStore_def exampleType_def)

text \<open>
  The theorem at the input \<open>abcd\<close> of two records: 4 + 8 + 8 = 20 elements of buffer
  space, the indices 97 and 99, a tree of these two keys, 4 bytes consumed. The store
  returned is the example store after the reset: its hold lists are empty, buffer 0 is
  active and empty, the others are free, and the type records 20 as the size needed.
\<close>

theorem deserialize_two_passes_witness:
  "sizePass exampleSizeRecord ''abcd'' 4 = Some (Completed 20)
   \<and> deserialize exampleCollaborators 4 exampleSizeRecord exampleParseRecord () ''abcd'' []
       [(5, ())] exampleEnumStore =
     Some (Inr (4, [97, 99], [(97, ()), (99, ())],
       \<lparr> enumDict = \<lparr> dictHoldList = [], dictFreed = [] \<rparr>,
         store =
           \<lparr> buffers =
               [\<lparr> bs_state = ACTIVE, bs_usedElems = 0, bs_deadElems = 0 \<rparr>,
                \<lparr> bs_state = FREE, bs_usedElems = 0, bs_deadElems = 0 \<rparr>,
                \<lparr> bs_state = FREE, bs_usedElems = 0, bs_deadElems = 0 \<rparr>],
             activeBufferId = 0,
             storeHoldList = [],
             storeFreed = [] \<rparr>,
         enumType =
           \<lparr> arraySize = 4, minArrays = 1000, maxArrays = 1000, activeUsedElems = 0,
             lastUsedElems = None, minSizeNeeded = 20, deadElems = 0,
             pendingCompact = False, wantCompact = False \<rparr>,
         toHoldBuffers = [] \<rparr>))"
  using deserialize_two_passes [of exampleSizeRecord "[''ab'', ''cd'']" 4 exampleParseRecord
      exampleCollaborators exampleEnumStore "()" "[]" "[(5, ())]"]
  by (simp add: example_align exampleSizeRecord_def exampleParseRecord_def example_reset
      exampleType_def Let_def)

lemma deserialize_negative_keeps_tree:
  assumes "deserialize c unit sizeRecord parseRecord dataDefault src idx tree s =
             Some (Inr (sz, idx', tree', s'))"
    and "sz < 0"
  shows "tree' = tree"
  using assms
  by (auto simp: deserialize_def split: option.splits sum.splits if_splits)

text \<open>
  Claim C7. Whenever \<open>deserialize\<close> returns a negative size, the tree is the one it was
  given. If, after records consumed one by one, the size function returns a negative
  value on what is left, \<open>deserialize\<close> returns that value and nothing has changed: no
  further record is read, the store is not reset, the index vector and the tree are as
  before. If the first pass completes and the parse function returns a negative value
  after some records, \<open>deserialize\<close> returns that value, the index vector holds the
  indices of the records parsed before the failing one and no more, and the tree is not
  built.
\<close>

theorem deserialize_error_propagates:
  "(\<forall>sz idx' tree' s'.
      deserialize c unit sizeRecord parseRecord dataDefault src idx tree s =
        Some (Inr (sz, idx', tree', s')) \<and> sz < 0 \<longrightarrow> tree' = tree)
   \<and> (sizeFramed sizeRecord recs rest (Index_align unit 1) \<and> rest \<noteq> [] \<and>
       fst (sizeRecord rest (sizeTotal sizeRecord recs rest (Index_align unit 1))) < 0 \<longrightarrow>
       deserialize c unit sizeRecord parseRecord dataDefault (concat recs @ rest) idx tree s =
         Some (Inr (fst (sizeRecord rest (sizeTotal sizeRecord recs rest (Index_align unit 1))),
           idx, tree, s)))
   \<and> (sizeFramed sizeRecord recsA [] (Index_align unit 1) \<and>
       concat recsA = concat recs @ rest \<and>
       parseFramed parseRecord recs rest
         (reset c (sizeTotal sizeRecord recsA [] (Index_align unit 1)) s) \<and>
       rest \<noteq> [] \<and>
       fst (parseRecord rest (parsedStore parseRecord recs rest
              (reset c (sizeTotal sizeRecord recsA [] (Index_align unit 1)) s))) < 0 \<longrightarrow>
       deserialize c unit sizeRecord parseRecord dataDefault (concat recs @ rest) idx tree s =
         Some (Inr (fst (parseRecord rest (parsedStore parseRecord recs rest
                      (reset c (sizeTotal sizeRecord recsA [] (Index_align unit 1)) s))),
           idx @ parsedIndices parseRecord recs rest
                   (reset c (sizeTotal sizeRecord recsA [] (Index_align unit 1)) s),
           tree,
           snd (snd (parseRecord rest (parsedStore parseRecord recs rest
                      (reset c (sizeTotal sizeRecord recsA [] (Index_align unit 1)) s)))))))"
proof (intro conjI allI impI)
  fix sz idx' tree' s'
  assume "deserialize c unit sizeRecord parseRecord dataDefault src idx tree s =
        Some (Inr (sz, idx', tree', s')) \<and> sz < 0"
  then have d: "deserialize c unit sizeRecord parseRecord dataDefault src idx tree s =
        Some (Inr (sz, idx', tree', s'))" and n: "sz < 0"
    by simp_all
  from d n show "tree' = tree"
    by (rule deserialize_negative_keeps_tree)
next
  assume h: "sizeFramed sizeRecord recs rest (Index_align unit 1) \<and> rest \<noteq> [] \<and>
       fst (sizeRecord rest (sizeTotal sizeRecord recs rest (Index_align unit 1))) < 0"
  then have "deserialize0 c unit sizeRecord parseRecord (concat recs @ rest) idx s =
     Some (Inr (fst (sizeRecord rest (sizeTotal sizeRecord recs rest (Index_align unit 1))),
       idx, s))"
    by (intro deserialize0_size_error) simp_all
  then show "deserialize c unit sizeRecord parseRecord dataDefault (concat recs @ rest) idx tree s =
         Some (Inr (fst (sizeRecord rest (sizeTotal sizeRecord recs rest (Index_align unit 1))),
           idx, tree, s))"
    using h by (simp add: deserialize_def)
next
  assume h: "sizeFramed sizeRecord recsA [] (Index_align unit 1) \<and>
       concat recsA = concat recs @ rest \<and>
       parseFramed parseRecord recs rest
         (reset c (sizeTotal sizeRecord recsA [] (Index_align unit 1)) s) \<and>
       rest \<noteq> [] \<and>
       fst (parseRecord rest (parsedStore parseRecord recs rest
              (reset c (sizeTotal sizeRecord recsA [] (Index_align unit 1)) s))) < 0"
  then have "deserialize0 c unit sizeRecord parseRecord (concat recs @ rest) idx s =
     Some (Inr (fst (parseRecord rest (parsedStore parseRecord recs rest
                  (reset c (sizeTotal sizeRecord recsA [] (Index_align unit 1)) s))),
       idx @ parsedIndices parseRecord recs rest
               (reset c (sizeTotal sizeRecord recsA [] (Index_align unit 1)) s),
       snd (snd (parseRecord rest (parsedStore parseRecord recs rest
                  (reset c (sizeTotal sizeRecord recsA [] (Index_align unit 1)) s))))))"
    by (intro deserialize0_parse_error) simp_all
  then show "deserialize c unit sizeRecord parseRecord dataDefault (concat recs @ rest) idx tree s =
         Some (Inr (fst (parseRecord rest (parsedStore parseRecord recs rest
                      (reset c (sizeTotal sizeRecord recsA [] (Index_align unit 1)) s))),
           idx @ parsedIndices parseRecord recs rest
                   (reset c (sizeTotal sizeRecord recsA [] (Index_align unit 1)) s),
           tree,
           snd (snd (parseRecord rest (parsedStore parseRecord recs rest
                      (reset c (sizeTotal sizeRecord recsA [] (Index_align unit 1)) s))))))"
    using h by (simp add: deserialize_def)
qed

text \<open>
  The theorem at the input \<open>abc\<close>, whose last record is cut short: the first pass
  returns -1 and nothing has changed. And at the input \<open>abxd\<close>, whose second record is
  refused by the parse function: the second pass returns -1 after the index 97, on the
  store that was reset, and the tree is as before.
\<close>

theorem deserialize_error_propagates_witness:
  "deserialize exampleCollaborators 4 exampleSizeRecord exampleParseRecord () ''abc'' []
       [(5, ())] exampleEnumStore =
     Some (Inr (- 1, [], [(5, ())], exampleEnumStore))
   \<and> deserialize exampleCollaborators 4 exampleSizeRecord exampleParseRecord () ''abxd'' []
       [(5, ())] exampleEnumStore =
     Some (Inr (- 1, [97], [(5, ())], reset exampleCollaborators 20 exampleEnumStore))"
  using deserialize_error_propagates [of exampleCollaborators 4 exampleSizeRecord
      exampleParseRecord "()" "[]" "[]" "[(5, ())]" exampleEnumStore "[''ab'']" "''c''"
      "[]"]
    deserialize_error_propagates [of exampleCollaborators 4 exampleSizeRecord
      exampleParseRecord "()" "[]" "[]" "[(5, ())]" exampleEnumStore "[''ab'']" "''xd''"
      "[''ab'', ''xd'']"]
  by (simp add: example_align exampleSizeRecord_def exampleParseRecord_def)

section \<open>Deduplication in the unique store\<close>

lemma lookup_cong:
  assumes "equivp eqv" "eqv v w"
  shows "lookup eqv v d = lookup eqv w d"
proof (induction d)
  case Nil
  then show ?case by simp
next
  case (Cons p d)
  obtain u r where p: "p = (u, r)" by (cases p)
  have "eqv v u \<longleftrightarrow> eqv w u"
    using assms by (meson equivp_symp equivp_transp)
  then show ?case
    using Cons.IH p by simp
qed

lemma lookup_Some_mem: "lookup eqv v d = Some r \<Longrightarrow> \<exists>w. (w, r) \<in> set d \<and> eqv v w"
  by (induction d) (auto split: if_splits)

lemma lookup_None_iff: "lookup eqv v d = None \<longleftrightarrow> (\<forall>(w, r) \<in> set d. \<not> eqv v w)"
proof (induction d)
  case Nil
  then show ?case by simp
next
  case (Cons p d)
  obtain u x where p: "p = (u, x)" by (cases p)
  show ?case
    using Cons.IH by (cases "eqv v u") (simp_all add: p)
qed

lemma lookup_filter_None:
  "lookup eqv v d = None \<Longrightarrow> lookup eqv v (filter P d) = None"
  by (auto simp: lookup_None_iff)

lemma lookup_filter_other:
  "lookup eqv v d = Some r' \<Longrightarrow> r' \<noteq> r \<Longrightarrow>
   lookup eqv v (filter (\<lambda>(w, x). x \<noteq> r) d) = Some r'"
  by (induction d) (auto split: if_splits)

lemma lookup_filter_same:
  assumes "equivp eqv"
  shows "uniqueValues eqv d \<Longrightarrow> lookup eqv v d = Some r \<Longrightarrow>
         lookup eqv v (filter (\<lambda>(w, x). x \<noteq> r) d) = None"
proof (induction d)
  case Nil
  then show ?case by simp
next
  case (Cons p d)
  obtain u x where p: "p = (u, x)" by (cases p)
  from Cons.prems(1) p have un: "lookup eqv u d = None" and ud: "uniqueValues eqv d"
    by simp_all
  show ?case
  proof (cases "eqv v u")
    case True
    with Cons.prems(2) p have "x = r" by simp
    moreover have "lookup eqv v d = None"
      using lookup_cong [OF assms True, of d] un by simp
    then have "lookup eqv v (filter (\<lambda>(w, x). x \<noteq> r) d) = None"
      by (rule lookup_filter_None)
    ultimately show ?thesis
      using p by simp
  next
    case False
    with Cons.prems(2) p have "lookup eqv v d = Some r" by simp
    with ud have "lookup eqv v (filter (\<lambda>(w, x). x \<noteq> r) d) = None"
      by (rule Cons.IH)
    then show ?thesis
      using p False by simp
  qed
qed

lemma uniqueValues_filter: "uniqueValues eqv d \<Longrightarrow> uniqueValues eqv (filter P d)"
  by (induction d) (auto simp: lookup_filter_None)

lemma same_ref_same_value:
  "distinct (map snd d) \<Longrightarrow> (a, r) \<in> set d \<Longrightarrow> (b, r) \<in> set d \<Longrightarrow> a = b"
  by (induction d) (auto simp: rev_image_eqI)

lemma lookup_refs_differ:
  assumes eq: "equivp eqv"
    and di: "distinct (map snd d)"
    and ne: "\<not> eqv v w"
    and lv: "lookup eqv v d = Some r'"
    and lw: "lookup eqv w d = Some r"
  shows "r' \<noteq> r"
proof
  assume same: "r' = r"
  obtain a where a: "(a, r') \<in> set d" "eqv v a"
    using lookup_Some_mem [OF lv] by blast
  obtain b where b: "(b, r) \<in> set d" "eqv w b"
    using lookup_Some_mem [OF lw] by blast
  have "a = b"
    using di a(1) b(1) same by (auto dest: same_ref_same_value)
  then have "eqv v w"
    using eq a(2) b(2) by (meson equivp_symp equivp_transp)
  with ne show False by simp
qed

lemma storeInv_empty: "storeInv eqv (emptyStore cap)"
  by (simp add: storeInv_def emptyStore_def)

lemma refCountOf_empty: "refCountOf eqv (emptyStore cap) v = 0"
  by (simp add: refCountOf_def emptyStore_def)

lemma add_found:
  assumes "lookup eqv v (dict s) = Some r" "entries s r = Some e"
  shows "UniqueStore_add eqv v s =
     Inr (\<lparr>ref = r, isNew = False\<rparr>,
          s\<lparr>entries := (entries s)(r \<mapsto> e\<lparr>refCount := refCount e + 1\<rparr>)\<rparr>)"
  using assms by (simp add: UniqueStore_add_def)

lemma add_fresh:
  assumes "lookup eqv v (dict s) = None" "nextRef s < capacity s"
  shows "UniqueStore_add eqv v s =
     Inr (\<lparr>ref = nextRef s, isNew = True\<rparr>,
          s\<lparr>dict := (v, nextRef s) # dict s,
            entries := (entries s)(nextRef s \<mapsto> \<lparr>entryValue = v, refCount = 1\<rparr>),
            nextRef := nextRef s + 1\<rparr>)"
  using assms by (simp add: UniqueStore_add_def)

lemma add_cases:
  assumes "UniqueStore_add eqv v s = Inr (res, s')"
  obtains (found) r e where "lookup eqv v (dict s) = Some r" "entries s r = Some e"
      "res = \<lparr>ref = r, isNew = False\<rparr>"
      "s' = s\<lparr>entries := (entries s)(r \<mapsto> e\<lparr>refCount := refCount e + 1\<rparr>)\<rparr>"
  | (fresh) "lookup eqv v (dict s) = None" "nextRef s < capacity s"
      "res = \<lparr>ref = nextRef s, isNew = True\<rparr>"
      "s' = s\<lparr>dict := (v, nextRef s) # dict s,
            entries := (entries s)(nextRef s \<mapsto> \<lparr>entryValue = v, refCount = 1\<rparr>),
            nextRef := nextRef s + 1\<rparr>"
  using assms
  by (auto simp: UniqueStore_add_def split: option.splits if_splits)

lemma add_then_lookup:
  assumes eq: "equivp eqv"
    and add: "UniqueStore_add eqv v s = Inr (res, s')"
  shows "lookup eqv v (dict s') = Some (ref res) \<and> (\<exists>e. entries s' (ref res) = Some e)"
  using add
proof (cases rule: add_cases)
  case (found r e)
  then show ?thesis by simp
next
  case fresh
  have "eqv v v"
    using eq by (simp add: equivp_reflp)
  with fresh show ?thesis by simp
qed

lemma add_twice:
  assumes eq: "equivp eqv"
    and add: "UniqueStore_add eqv v1 s = Inr (res1, s1)"
    and same: "eqv v1 v2"
  shows "\<exists>e1. entries s1 (ref res1) = Some e1 \<and>
           UniqueStore_add eqv v2 s1 =
             Inr (\<lparr>ref = ref res1, isNew = False\<rparr>,
                  s1\<lparr>entries := (entries s1)(ref res1 \<mapsto> e1\<lparr>refCount := refCount e1 + 1\<rparr>)\<rparr>)"
proof -
  from add_then_lookup [OF eq add] obtain e1
    where l: "lookup eqv v1 (dict s1) = Some (ref res1)" and e: "entries s1 (ref res1) = Some e1"
    by blast
  have "lookup eqv v2 (dict s1) = Some (ref res1)"
    using lookup_cong [OF eq same, of "dict s1"] l by simp
  then show ?thesis
    using e by (simp add: add_found)
qed

lemma storeInv_add:
  assumes inv: "storeInv eqv s"
    and add: "UniqueStore_add eqv v s = Inr (res, s')"
  shows "storeInv eqv s'"
  using add
proof (cases rule: add_cases)
  case (found r e)
  with inv show ?thesis by (simp add: storeInv_def)
next
  case fresh
  from inv have b: "list_all (\<lambda>(w, r). r < nextRef s) (dict s)"
    by (simp add: storeInv_def)
  then have "nextRef s \<notin> snd ` set (dict s)"
    by (auto simp: list_all_iff)
  moreover from b have "list_all (\<lambda>(w, r). r < nextRef s + 1) (dict s)"
    by (auto simp: list_all_iff)
  ultimately show ?thesis
    using inv fresh by (simp add: storeInv_def)
qed

lemma remove_cases:
  assumes "UniqueStore_remove r s = Inr s'"
  obtains (last) e where "entries s r = Some e" "refCount e = 1"
      "s' = s\<lparr>dict := filter (\<lambda>(w, r'). r' \<noteq> r) (dict s),
             entries := (entries s)(r \<mapsto> e\<lparr>refCount := 0\<rparr>),
             heldRefs := r # heldRefs s\<rparr>"
  | (more) e where "entries s r = Some e" "1 < refCount e"
      "s' = s\<lparr>entries := (entries s)(r \<mapsto> e\<lparr>refCount := refCount e - 1\<rparr>)\<rparr>"
  using assms
  by (auto simp: UniqueStore_remove_def split: option.splits if_splits)

lemma storeInv_remove:
  assumes inv: "storeInv eqv s"
    and rem: "UniqueStore_remove r s = Inr s'"
  shows "storeInv eqv s'"
  using rem
proof (cases rule: remove_cases)
  case (last e)
  from inv have "distinct (map snd (filter (\<lambda>(w, r'). r' \<noteq> r) (dict s)))"
    by (simp add: storeInv_def distinct_map_filter)
  moreover from inv have "list_all (\<lambda>(w, r). r < nextRef s) (filter (\<lambda>(w, r'). r' \<noteq> r) (dict s))"
    by (auto simp: storeInv_def list_all_iff)
  moreover from inv have "uniqueValues eqv (filter (\<lambda>(w, r'). r' \<noteq> r) (dict s))"
    by (simp add: storeInv_def uniqueValues_filter)
  ultimately show ?thesis
    using last by (simp add: storeInv_def)
next
  case (more e)
  with inv show ?thesis by (simp add: storeInv_def)
qed

lemma refCountOf_add:
  assumes eq: "equivp eqv"
    and inv: "storeInv eqv s"
    and add: "UniqueStore_add eqv w s = Inr (res, s')"
  shows "refCountOf eqv s' v = refCountOf eqv s v + (if eqv v w then 1 else 0)"
  using add
proof (cases rule: add_cases)
  case (found r e)
  show ?thesis
  proof (cases "eqv v w")
    case True
    then have "lookup eqv v (dict s) = Some r"
      using lookup_cong [OF eq True, of "dict s"] found(1) by simp
    then show ?thesis
      using True found by (simp add: refCountOf_def)
  next
    case False
    show ?thesis
    proof (cases "lookup eqv v (dict s)")
      case None
      then show ?thesis
        using False found by (simp add: refCountOf_def)
    next
      case (Some r')
      have "r' \<noteq> r"
        using eq _ False Some found(1)
        by (rule lookup_refs_differ) (use inv in \<open>simp add: storeInv_def\<close>)
      then show ?thesis
        using False Some found by (simp add: refCountOf_def)
    qed
  qed
next
  case fresh
  show ?thesis
  proof (cases "eqv v w")
    case True
    then have "lookup eqv v (dict s) = None"
      using lookup_cong [OF eq True, of "dict s"] fresh(1) by simp
    then show ?thesis
      using True fresh by (simp add: refCountOf_def)
  next
    case False
    show ?thesis
    proof (cases "lookup eqv v (dict s)")
      case None
      then show ?thesis
        using False fresh by (simp add: refCountOf_def)
    next
      case (Some r')
      then obtain a where "(a, r') \<in> set (dict s)"
        using lookup_Some_mem by fastforce
      with inv have "r' < nextRef s"
        by (auto simp: storeInv_def list_all_iff)
      then show ?thesis
        using False Some fresh by (simp add: refCountOf_def)
    qed
  qed
qed

lemma refCountOf_remove:
  assumes eq: "equivp eqv"
    and inv: "storeInv eqv s"
    and find: "lookup eqv w (dict s) = Some r"
    and rem: "UniqueStore_remove r s = Inr s'"
  shows "int (refCountOf eqv s' v) = int (refCountOf eqv s v) - (if eqv v w then 1 else 0)"
proof -
  from inv have di: "distinct (map snd (dict s))" and un: "uniqueValues eqv (dict s)"
    by (simp_all add: storeInv_def)
  have other: "r' \<noteq> r" if "\<not> eqv v w" "lookup eqv v (dict s) = Some r'" for r'
    using eq di that find by (rule lookup_refs_differ)
  have same: "lookup eqv v (dict s) = Some r" if "eqv v w"
    using lookup_cong [OF eq that, of "dict s"] find by simp
  from rem show ?thesis
  proof (cases rule: remove_cases)
    case (last e)
    show ?thesis
    proof (cases "eqv v w")
      case True
      have "lookup eqv v (filter (\<lambda>(w, r'). r' \<noteq> r) (dict s)) = None"
        using eq un same [OF True] by (rule lookup_filter_same)
      then show ?thesis
        using True same [OF True] last by (simp add: refCountOf_def)
    next
      case False
      show ?thesis
      proof (cases "lookup eqv v (dict s)")
        case None
        then have "lookup eqv v (filter (\<lambda>(w, r'). r' \<noteq> r) (dict s)) = None"
          by (rule lookup_filter_None)
        then show ?thesis
          using False None last by (simp add: refCountOf_def)
      next
        case (Some r')
        have ne: "r' \<noteq> r"
          using False Some by (rule other)
        have "lookup eqv v (filter (\<lambda>(w, x). x \<noteq> r) (dict s)) = Some r'"
          using Some ne by (rule lookup_filter_other)
        then show ?thesis
          using False Some ne last by (simp add: refCountOf_def)
      qed
    qed
  next
    case (more e)
    show ?thesis
    proof (cases "eqv v w")
      case True
      then show ?thesis
        using same [OF True] more by (simp add: refCountOf_def)
    next
      case False
      show ?thesis
      proof (cases "lookup eqv v (dict s)")
        case None
        then show ?thesis
          using False more by (simp add: refCountOf_def)
      next
        case (Some r')
        have "r' \<noteq> r"
          using False Some by (rule other)
        then show ?thesis
          using False Some more by (simp add: refCountOf_def)
      qed
    qed
  qed
qed

lemma runOps_refCount:
  assumes eq: "equivp eqv"
  shows "storeInv eqv s \<Longrightarrow> runOps eqv ops s = Inr s' \<Longrightarrow>
         int (refCountOf eqv s' v) =
           int (refCountOf eqv s v) + int (numAdds eqv v ops) - int (numRemoves eqv v ops)"
proof (induction ops arbitrary: s)
  case Nil
  then show ?case by simp
next
  case (Cons op ops)
  show ?case
  proof (cases op)
    case (OpAdd w)
    with Cons.prems(2) obtain res s1
      where add: "UniqueStore_add eqv w s = Inr (res, s1)" and run: "runOps eqv ops s1 = Inr s'"
      by (auto split: sum.splits)
    have inv1: "storeInv eqv s1"
      using Cons.prems(1) add by (rule storeInv_add)
    have "int (refCountOf eqv s' v) =
        int (refCountOf eqv s1 v) + int (numAdds eqv v ops) - int (numRemoves eqv v ops)"
      using inv1 run by (rule Cons.IH)
    moreover have "refCountOf eqv s1 v = refCountOf eqv s v + (if eqv v w then 1 else 0)"
      using eq Cons.prems(1) add by (rule refCountOf_add)
    ultimately show ?thesis
      using OpAdd by simp
  next
    case (OpRemove w)
    with Cons.prems(2) obtain r s1
      where find: "lookup eqv w (dict s) = Some r"
        and rem: "UniqueStore_remove r s = Inr s1" and run: "runOps eqv ops s1 = Inr s'"
      by (auto simp: UniqueStore_find_def split: option.splits sum.splits)
    have inv1: "storeInv eqv s1"
      using Cons.prems(1) rem by (rule storeInv_remove)
    have "int (refCountOf eqv s' v) =
        int (refCountOf eqv s1 v) + int (numAdds eqv v ops) - int (numRemoves eqv v ops)"
      using inv1 run by (rule Cons.IH)
    moreover have "int (refCountOf eqv s1 v) =
        int (refCountOf eqv s v) - (if eqv v w then 1 else 0)"
      using eq Cons.prems(1) find rem by (rule refCountOf_remove)
    ultimately show ?thesis
      using OpRemove by simp
  qed
qed

text \<open>
  Claim C4. For a comparator whose equality is an equivalence: if \<open>add v1\<close> succeeds
  and \<open>v2\<close> equals \<open>v1\<close> by the comparator, the next \<open>add v2\<close> returns the same
  reference, reports \<open>isNew = False\<close> and raises the count of that entry by one; an
  \<open>add\<close> of a value the dictionary does not hold, with room in the arena, allocates
  the next reference, sets the count to 1 and reports \<open>isNew = True\<close>; and after any
  sequence of adds and removes that runs without a failure from the empty store, the
  count of a value is the number of adds of values equal to it minus the number of
  removes of values equal to it.
\<close>

theorem UniqueStore_dedup:
  fixes eqv :: "'v \<Rightarrow> 'v \<Rightarrow> bool"
  assumes eq: "equivp eqv"
  shows "(\<forall>(s :: 'v UniqueStore) res1 s1.
            UniqueStore_add eqv v1 s = Inr (res1, s1) \<and> eqv v1 v2 \<longrightarrow>
            (\<exists>e1. entries s1 (ref res1) = Some e1 \<and>
               UniqueStore_add eqv v2 s1 =
                 Inr (\<lparr>ref = ref res1, isNew = False\<rparr>,
                      s1\<lparr>entries :=
                           (entries s1)(ref res1 \<mapsto> e1\<lparr>refCount := refCount e1 + 1\<rparr>)\<rparr>)))
     \<and> (\<forall>s :: 'v UniqueStore. lookup eqv v1 (dict s) = None \<and> nextRef s < capacity s \<longrightarrow>
            UniqueStore_add eqv v1 s =
              Inr (\<lparr>ref = nextRef s, isNew = True\<rparr>,
                   s\<lparr>dict := (v1, nextRef s) # dict s,
                     entries := (entries s)(nextRef s \<mapsto> \<lparr>entryValue = v1, refCount = 1\<rparr>),
                     nextRef := nextRef s + 1\<rparr>))
     \<and> (\<forall>ops s'.
            runOps eqv ops (emptyStore cap) = Inr s' \<longrightarrow>
            int (refCountOf eqv s' v) = int (numAdds eqv v ops) - int (numRemoves eqv v ops))"
proof (intro conjI allI impI)
  fix s :: "'v UniqueStore" and res1 s1
  assume "UniqueStore_add eqv v1 s = Inr (res1, s1) \<and> eqv v1 v2"
  then have a: "UniqueStore_add eqv v1 s = Inr (res1, s1)" and b: "eqv v1 v2"
    by simp_all
  from eq a b
  show "\<exists>e1. entries s1 (ref res1) = Some e1 \<and>
               UniqueStore_add eqv v2 s1 =
                 Inr (\<lparr>ref = ref res1, isNew = False\<rparr>,
                      s1\<lparr>entries :=
                           (entries s1)(ref res1 \<mapsto> e1\<lparr>refCount := refCount e1 + 1\<rparr>)\<rparr>)"
    by (rule add_twice)
next
  fix s :: "'v UniqueStore"
  assume "lookup eqv v1 (dict s) = None \<and> nextRef s < capacity s"
  then show "UniqueStore_add eqv v1 s =
              Inr (\<lparr>ref = nextRef s, isNew = True\<rparr>,
                   s\<lparr>dict := (v1, nextRef s) # dict s,
                     entries := (entries s)(nextRef s \<mapsto> \<lparr>entryValue = v1, refCount = 1\<rparr>),
                     nextRef := nextRef s + 1\<rparr>)"
    by (simp add: add_fresh)
next
  fix ops s'
  assume run: "runOps eqv ops (emptyStore cap) = Inr s'"
  have "int (refCountOf eqv s' v) =
      int (refCountOf eqv (emptyStore cap) v) + int (numAdds eqv v ops) - int (numRemoves eqv v ops)"
    using storeInv_empty run by (rule runOps_refCount [OF eq])
  then show "int (refCountOf eqv s' v) = int (numAdds eqv v ops) - int (numRemoves eqv v ops)"
    by (simp add: refCountOf_empty)
qed

lemma sameFolded_equivp: "equivp sameFolded"
  by (auto intro!: equivpI reflpI sympI transpI simp: sameFolded_def)

lemma lowerChar_examples:
  "lowerChar CHR ''F'' = CHR ''f''" "lowerChar CHR ''O'' = CHR ''o''"
  "lowerChar CHR ''f'' = CHR ''f''" "lowerChar CHR ''o'' = CHR ''o''"
  by (simp_all add: lowerChar_def)

lemma sameFolded_examples:
  "sameFolded ''Foo'' ''foo''" "sameFolded ''foo'' ''Foo''" "sameFolded ''FOO'' ''Foo''"
  "sameFolded ''foo'' ''FOO''" "sameFolded ''FOO'' ''foo''" "sameFolded ''Foo'' ''FOO''"
  "sameFolded ''foo'' ''foo''" "sameFolded ''Foo'' ''Foo''"
  by (simp_all add: sameFolded_def lowerChar_examples)

lemma example_add_Foo:
  "UniqueStore_add sameFolded ''Foo'' (emptyStore 10) =
     Inr (\<lparr>ref = 0, isNew = True\<rparr>,
          \<lparr>dict = [(''Foo'', 0)],
           entries = [0 \<mapsto> \<lparr>entryValue = ''Foo'', refCount = 1\<rparr>],
           nextRef = 1, capacity = 10, heldRefs = []\<rparr>)"
  by (simp add: UniqueStore_add_def emptyStore_def)

lemma example_add_foo:
  "UniqueStore_add sameFolded ''foo''
     \<lparr>dict = [(''Foo'', 0)],
      entries = [0 \<mapsto> \<lparr>entryValue = ''Foo'', refCount = 1\<rparr>],
      nextRef = 1, capacity = 10, heldRefs = []\<rparr> =
     Inr (\<lparr>ref = 0, isNew = False\<rparr>,
          \<lparr>dict = [(''Foo'', 0)],
           entries = [0 \<mapsto> \<lparr>entryValue = ''Foo'', refCount = 2\<rparr>],
           nextRef = 1, capacity = 10, heldRefs = []\<rparr>)"
  by (simp add: UniqueStore_add_def sameFolded_examples numeral_2_eq_2)

lemma example_remove_FOO:
  "UniqueStore_find sameFolded ''FOO''
     \<lparr>dict = [(''Foo'', 0)],
      entries = [0 \<mapsto> \<lparr>entryValue = ''Foo'', refCount = 2\<rparr>],
      nextRef = 1, capacity = 10, heldRefs = []\<rparr> = Some 0"
  "UniqueStore_remove 0
     \<lparr>dict = [(''Foo'', 0)],
      entries = [0 \<mapsto> \<lparr>entryValue = ''Foo'', refCount = 2\<rparr>],
      nextRef = 1, capacity = 10, heldRefs = []\<rparr> =
     Inr \<lparr>dict = [(''Foo'', 0)],
          entries = [0 \<mapsto> \<lparr>entryValue = ''Foo'', refCount = 1\<rparr>],
          nextRef = 1, capacity = 10, heldRefs = []\<rparr>"
  by (simp_all add: UniqueStore_find_def UniqueStore_remove_def sameFolded_examples numeral_2_eq_2)

lemma example_run:
  "runOps sameFolded [OpAdd ''Foo'', OpAdd ''foo'', OpRemove ''FOO''] (emptyStore 10) =
     Inr \<lparr>dict = [(''Foo'', 0)],
          entries = [0 \<mapsto> \<lparr>entryValue = ''Foo'', refCount = 1\<rparr>],
          nextRef = 1, capacity = 10, heldRefs = []\<rparr>"
  by (simp only: runOps.simps example_add_Foo example_add_foo example_remove_FOO
      sum.case prod.case option.case)

text \<open>
  The theorem for strings compared without regard to case: \<open>Foo\<close> is new and gets
  reference 0, \<open>foo\<close> gets the same reference and is not new; after the two adds and a
  remove of \<open>FOO\<close> the count of \<open>foo\<close> is 1.
\<close>

theorem UniqueStore_dedup_witness:
  "(\<exists>s1 s2 e2.
      UniqueStore_add sameFolded ''Foo'' (emptyStore 10) = Inr (\<lparr>ref = 0, isNew = True\<rparr>, s1) \<and>
      UniqueStore_add sameFolded ''foo'' s1 = Inr (\<lparr>ref = 0, isNew = False\<rparr>, s2) \<and>
      entries s2 0 = Some e2 \<and> refCount e2 = 2)
   \<and> (\<exists>s'. runOps sameFolded [OpAdd ''Foo'', OpAdd ''foo'', OpRemove ''FOO''] (emptyStore 10) =
          Inr s' \<and>
        refCountOf sameFolded s' ''foo'' = 1)"
proof -
  note inst = UniqueStore_dedup [OF sameFolded_equivp, of "''Foo''" "''foo''" 10 "''foo''"]
  let ?s1 = "\<lparr>dict = [(''Foo'', 0)],
           entries = [0 \<mapsto> \<lparr>entryValue = ''Foo'', refCount = 1\<rparr>],
           nextRef = 1, capacity = 10, heldRefs = []\<rparr> :: string UniqueStore"
  have "\<exists>e1. entries ?s1 (ref \<lparr>ref = 0, isNew = True\<rparr>) = Some e1 \<and>
      UniqueStore_add sameFolded ''foo'' ?s1 =
        Inr (\<lparr>ref = ref \<lparr>ref = 0, isNew = True\<rparr>, isNew = False\<rparr>,
             ?s1\<lparr>entries := (entries ?s1)(ref \<lparr>ref = 0, isNew = True\<rparr> \<mapsto>
                  e1\<lparr>refCount := refCount e1 + 1\<rparr>)\<rparr>)"
    using inst [THEN conjunct1, rule_format, OF conjI, OF example_add_Foo sameFolded_examples(1)] .
  then obtain e1 where e1: "entries ?s1 0 = Some e1"
    and a2: "UniqueStore_add sameFolded ''foo'' ?s1 =
        Inr (\<lparr>ref = 0, isNew = False\<rparr>,
             ?s1\<lparr>entries := (entries ?s1)(0 \<mapsto> e1\<lparr>refCount := refCount e1 + 1\<rparr>)\<rparr>)"
    by auto
  from e1 have c1: "refCount e1 = 1"
    by auto
  have e2: "entries (?s1\<lparr>entries := (entries ?s1)(0 \<mapsto> e1\<lparr>refCount := refCount e1 + 1\<rparr>)\<rparr>) 0 =
      Some (e1\<lparr>refCount := refCount e1 + 1\<rparr>)"
    by simp
  have c2: "refCount (e1\<lparr>refCount := refCount e1 + 1\<rparr>) = 2"
    using c1 by simp
  from example_add_Foo a2 e2 c2 have first: "\<exists>s1 s2 e2.
      UniqueStore_add sameFolded ''Foo'' (emptyStore 10) = Inr (\<lparr>ref = 0, isNew = True\<rparr>, s1) \<and>
      UniqueStore_add sameFolded ''foo'' s1 = Inr (\<lparr>ref = 0, isNew = False\<rparr>, s2) \<and>
      entries s2 0 = Some e2 \<and> refCount e2 = 2"
    by blast
  have "int (refCountOf sameFolded ?s1 ''foo'') =
      int (numAdds sameFolded ''foo'' [OpAdd ''Foo'', OpAdd ''foo'', OpRemove ''FOO'']) -
      int (numRemoves sameFolded ''foo'' [OpAdd ''Foo'', OpAdd ''foo'', OpRemove ''FOO''])"
    using inst [THEN conjunct2, THEN conjunct2, rule_format, OF example_run] .
  then have "refCountOf sameFolded ?s1 ''foo'' = 1"
    by (simp add: sameFolded_examples)
  with example_run have second: "\<exists>s'. runOps sameFolded [OpAdd ''Foo'', OpAdd ''foo'', OpRemove ''FOO'']
          (emptyStore 10) = Inr s' \<and> refCountOf sameFolded s' ''foo'' = 1"
    by blast
  from first second show ?thesis by blast
qed

end
